theory Spec2Isabelle
  imports Complex_Main "HOL-Library.Multiset"
begin

section \<open>Population based training: the scheduler of \<open>src/pbt/core.py\<close>\<close>

text \<open>
  The development embeds the two classes of \<open>src/pbt/core.py\<close>, \<open>Worker\<close> and
  \<open>PBTTrainer\<close>, as functions on records.

  \<^item> Python floats (scores, hyperparameter values, scales, explore factors) are the
    reals: rounding, infinities and NaN are not modelled.
  \<^item> A Python dict with string keys whose order matters (the hyperparameters) is an
    association list in insertion order; a Python dict has no duplicate keys, which
    the theorems state as \<open>distinct (map fst d)\<close>.
  \<^item> The global generator \<open>np.random\<close> is a sequence \<open>rng :: nat \<Rightarrow> real\<close> of
    samples of \<open>[0, 1)\<close> and a position in it; each draw reads \<open>rng pos\<close> and moves
    the position by one.
  \<^item> The caller's collaborators (model class, training function, evaluation function
    and the methods the scheduler calls on a model) are a record of total functions on
    an opaque model type; a collaborator that raises is outside the model.
  \<^item> An exception raised by the scheduler's own code is a value of \<open>py_error\<close>, in
    the left summand of the result.
  \<^item> Console output and the timing of \<open>run\<close> (\<open>time.time\<close>, the speed estimate)
    change no attribute and are left out, except for the \<open>ValueError\<close> that
    \<open>np.max\<close> raises on an empty score list.
\<close>

subsection \<open>Data\<close>

datatype py_error = KeyError string | ZeroDivisionError | IndexError | ValueError

type_synonym hparams = "(string \<times> real) list"

text \<open>The config dict: a dict of dicts with the keys the docstring of \<open>Worker\<close> requires.
  The keyword arguments of the trainer and of the evaluator are opaque.\<close>

record 'k config =
  generation_entry :: nat
  hyperparameters :: hparams
  trainer :: 'k
  evaluator :: 'k

text \<open>\<open>Worker\<close>: the attributes \<open>model\<close>, \<open>config\<close>, \<open>losses\<close>, \<open>score\<close>. The last
  two do not exist before the first \<open>train\<close> and \<open>evaluate\<close> (\<open>None\<close>). The
  attributes \<open>trainer\<close> and \<open>evaluator\<close> hold the caller's functions, the same for every
  worker: they are the fields of \<open>collab\<close> below.\<close>

record ('m, 'k, 'l) worker =
  w_model :: 'm
  w_config :: "'k config"
  w_losses :: "'l option"
  w_score :: "real option"

text \<open>The collaborators: \<open>model_cls hp\<close> is \<open>model(**hyperparameters)\<close>,
  \<open>trainer_fn m kw\<close> is \<open>trainer(model, **kw)\<close> and returns the losses with the
  trained model, \<open>evaluator_fn m kw\<close> is \<open>evaluator(model, **kw)\<close>;
  \<open>get_weights\<close> and \<open>set_weights\<close> are \<open>model.model.get_weights()\<close> and
  \<open>model.model.set_weights(w)\<close>, \<open>set_hyperparameters m hp\<close> is
  \<open>model.set_hyperparameters(**hp)\<close>.\<close>

record ('m, 'w, 'k, 'l) collab =
  model_cls :: "hparams \<Rightarrow> 'm"
  trainer_fn :: "'m \<Rightarrow> 'k \<Rightarrow> 'l \<times> 'm"
  evaluator_fn :: "'m \<Rightarrow> 'k \<Rightarrow> real \<times> 'm"
  get_weights :: "'m \<Rightarrow> 'w"
  set_weights :: "'m \<Rightarrow> 'w \<Rightarrow> 'm"
  set_hyperparameters :: "'m \<Rightarrow> hparams \<Rightarrow> 'm"

text \<open>\<open>PBTTrainer\<close>: its attributes, but for the three collaborators. A size and a
  count are natural numbers.\<close>

record ('m, 'k, 'l) pbt =
  pop_size :: nat
  generations :: nat
  generation :: nat
  rank :: string
  explore :: "real \<times> real"
  config :: "'k config"
  losses :: "'l list list"
  scores :: "real list list"
  population :: "('m, 'k, 'l) worker list"

subsection \<open>Python and numpy primitives\<close>

text \<open>\<open>d[k] = v\<close> on a dict: the value of an existing key is replaced in place, a new
  key is added at the end.\<close>

fun dict_set :: "string \<Rightarrow> real \<Rightarrow> hparams \<Rightarrow> hparams" where
  "dict_set k v [] = [(k, v)]"
| "dict_set k v ((k', v') # d) = (if k' = k then (k, v) # d else (k', v') # dict_set k v d)"

text \<open>\<open>np.random.uniform(low, high)\<close> is \<open>low + (high - low) * u\<close> for the next sample
  \<open>u\<close> of \<open>[0, 1)\<close>; \<open>np.random.uniform()\<close> is the call with \<open>low = 0\<close> and
  \<open>high = 1\<close>.\<close>

definition np_uniform :: "real \<Rightarrow> real \<Rightarrow> real \<Rightarrow> real" where
  "np_uniform low high u = low + (high - low) * u"

text \<open>\<open>xss[-1].append(x)\<close> on a non-empty list of lists.\<close>

definition append_last :: "'a \<Rightarrow> 'a list list \<Rightarrow> 'a list list" where
  "append_last x xss = butlast xss @ [last xss @ [x]]"

subsection \<open>Worker\<close>

definition Worker_init ::
  "('m, 'w, 'k, 'l) collab \<Rightarrow> 'k config \<Rightarrow> ('m, 'k, 'l) worker" where
  "Worker_init c cfg =
     \<lparr>w_model = model_cls c (hyperparameters cfg), w_config = cfg,
      w_losses = None, w_score = None\<rparr>"

definition Worker_train ::
  "('m, 'w, 'k, 'l) collab \<Rightarrow> ('m, 'k, 'l) worker \<Rightarrow> ('m, 'k, 'l) worker" where
  "Worker_train c w =
     (case trainer_fn c (w_model w) (trainer (w_config w)) of
        (l, m') \<Rightarrow> w\<lparr>w_model := m', w_losses := Some l\<rparr>)"

definition Worker_evaluate ::
  "('m, 'w, 'k, 'l) collab \<Rightarrow> ('m, 'k, 'l) worker \<Rightarrow> ('m, 'k, 'l) worker" where
  "Worker_evaluate c w =
     (case evaluator_fn c (w_model w) (evaluator (w_config w)) of
        (sc, m') \<Rightarrow> w\<lparr>w_model := m', w_score := Some sc\<rparr>)"

text \<open>\<open>run\<close> returns \<open>self.losses, self.score\<close>, which \<open>train\<close> and \<open>evaluate\<close> have
  just set (lemma \<open>Worker_run_set\<close>); the worker is returned with them.\<close>

definition Worker_run ::
  "('m, 'w, 'k, 'l) collab \<Rightarrow> ('m, 'k, 'l) worker \<Rightarrow> ('m, 'k, 'l) worker \<times> 'l \<times> real" where
  "Worker_run c w =
     (let w1 = Worker_train c w; w2 = Worker_evaluate c w1
      in (w2, the (w_losses w2), the (w_score w2)))"

subsection \<open>PBTTrainer\<close>

text \<open>The inner loop of the constructor, over the items of the base hyperparameters:
  \<open>new_config['hyperparameters'][param] =
     np.random.uniform(1/rand_scales[param], rand_scales[param]) * value\<close>.
  The lookup \<open>rand_scales[param]\<close> raises \<open>KeyError\<close> on a missing key and the
  division raises \<open>ZeroDivisionError\<close> on a scale 0.\<close>

fun randomize ::
  "(string \<rightharpoonup> real) \<Rightarrow> (nat \<Rightarrow> real) \<Rightarrow> (string \<times> real) list \<Rightarrow> nat \<Rightarrow> hparams
     \<Rightarrow> py_error + (nat \<times> hparams)" where
  "randomize rand_scales rng [] pos new = Inr (pos, new)"
| "randomize rand_scales rng ((param, value) # items) pos new =
     (case rand_scales param of
        None \<Rightarrow> Inl (KeyError param)
      | Some sc \<Rightarrow>
          if sc = 0 then Inl ZeroDivisionError
          else randomize rand_scales rng items (Suc pos)
                 (dict_set param (np_uniform (1 / sc) sc (rng pos) * value) new))"

text \<open>The outer loop, \<open>for individual in range(self.pop_size)\<close>: a deep copy of the
  base config, randomised, becomes the config of a new worker.\<close>

fun build_population ::
  "('m, 'w, 'k, 'l) collab \<Rightarrow> (string \<rightharpoonup> real) \<Rightarrow> (nat \<Rightarrow> real) \<Rightarrow> 'k config \<Rightarrow> nat \<Rightarrow> nat
     \<Rightarrow> ('m, 'k, 'l) worker list \<Rightarrow> py_error + (nat \<times> ('m, 'k, 'l) worker list)" where
  "build_population c rand_scales rng cfg 0 pos pop = Inr (pos, pop)"
| "build_population c rand_scales rng cfg (Suc n) pos pop =
     (case randomize rand_scales rng (hyperparameters cfg) pos (hyperparameters cfg) of
        Inl e \<Rightarrow> Inl e
      | Inr (pos', hp) \<Rightarrow>
          build_population c rand_scales rng cfg n pos'
            (pop @ [Worker_init c (cfg\<lparr>hyperparameters := hp\<rparr>)]))"

definition PBTTrainer_init ::
  "('m, 'w, 'k, 'l) collab \<Rightarrow> (nat \<Rightarrow> real) \<Rightarrow> nat \<Rightarrow> nat \<Rightarrow> nat \<Rightarrow> (string \<rightharpoonup> real) \<Rightarrow> 'k config
     \<Rightarrow> real \<times> real \<Rightarrow> string \<Rightarrow> py_error + (nat \<times> ('m, 'k, 'l) pbt)" where
  "PBTTrainer_init c rng pos population_size gens rand_scales cfg expl rnk =
     (case build_population c rand_scales rng cfg population_size pos [] of
        Inl e \<Rightarrow> Inl e
      | Inr (pos', pop) \<Rightarrow>
          Inr (pos', \<lparr>pop_size = population_size, generations = gens, generation = 0,
                      rank = rnk, explore = expl, config = cfg, losses = [], scores = [],
                      population = pop\<rparr>))"

text \<open>\<open>run_generation\<close>: the loop over \<open>enumerate(self.population)\<close>; a worker is
  mutated in place by its \<open>run\<close>.\<close>

fun run_generation_loop ::
  "('m, 'w, 'k, 'l) collab \<Rightarrow> nat list \<Rightarrow> ('m, 'k, 'l) pbt \<Rightarrow> ('m, 'k, 'l) pbt" where
  "run_generation_loop c [] s = s"
| "run_generation_loop c (i # is) s =
     (case Worker_run c (population s ! i) of
        (w', loss, score) \<Rightarrow>
          run_generation_loop c is
            (s\<lparr>population := (population s)[i := w'],
               losses := append_last loss (losses s),
               scores := append_last score (scores s)\<rparr>))"

definition run_generation ::
  "('m, 'w, 'k, 'l) collab \<Rightarrow> ('m, 'k, 'l) pbt \<Rightarrow> ('m, 'k, 'l) pbt" where
  "run_generation c s =
     (let s1 = s\<lparr>losses := losses s @ [[]], scores := scores s @ [[]]\<rparr>;
          s2 = run_generation_loop c [0..<length (population s1)] s1
      in s2\<lparr>generation := generation s2 + 1\<rparr>)"

text \<open>\<open>ranker\<close>: \<open>self.scores[-1]\<close> raises \<open>IndexError\<close> on an empty history;
  \<open>sorted\<close> is stable, as \<open>sort_key\<close> is.\<close>

definition ranker :: "('m, 'k, 'l) pbt \<Rightarrow> py_error + nat list" where
  "ranker s =
     (if scores s = [] then Inl IndexError
      else let sc = last (scores s);
               sc' = (if rank s = ''high'' then map (\<lambda>x. x * (- 1)) sc else sc)
           in Inr (sort_key (\<lambda>k. sc' ! k) [0..<length sc']))"

text \<open>\<open>int(np.ceil(0.2 * self.pop_size))\<close>.\<close>

definition num_pairs :: "nat \<Rightarrow> nat" where
  "num_pairs n = nat \<lceil>0.2 * real n\<rceil>"

text \<open>The inner loop of \<open>exploit_explore\<close>, over the items of the copied dict:
  \<open>new_hyperparameters[param] = value * factor\<close>.\<close>

fun perturb :: "real \<Rightarrow> (string \<times> real) list \<Rightarrow> hparams \<Rightarrow> hparams" where
  "perturb factor [] new = new"
| "perturb factor ((param, value) # items) new =
     perturb factor items (dict_set param (value * factor) new)"

text \<open>The body of the loop of \<open>exploit_explore\<close> for the pair of population indices
  \<open>b\<close> (best) and \<open>w\<close> (worst), both in range, with \<open>u\<close> the draw of
  \<open>np.random.uniform()\<close>.\<close>

definition exploit_pair ::
  "('m, 'w, 'k, 'l) collab \<Rightarrow> real \<Rightarrow> nat \<Rightarrow> nat \<Rightarrow> ('m, 'k, 'l) pbt \<Rightarrow> ('m, 'k, 'l) pbt" where
  "exploit_pair c u b w s =
     (let ww = population s ! w;
          s1 = s\<lparr>population := (population s)
                  [w := ww\<lparr>w_model := set_weights c (w_model ww)
                                        (get_weights c (w_model (population s ! b)))\<rparr>]\<rparr>;
          new_hyperparameters = hyperparameters (w_config (population s1 ! b));
          factor = (if u < 0.5 then fst (explore s1) else snd (explore s1));
          new_hyperparameters' = perturb factor new_hyperparameters new_hyperparameters;
          ww1 = population s1 ! w
      in s1\<lparr>population := (population s1)
              [w := ww1\<lparr>w_model := set_hyperparameters c (w_model ww1) new_hyperparameters'\<rparr>]\<rparr>)"

fun exploit_loop ::
  "('m, 'w, 'k, 'l) collab \<Rightarrow> (nat \<Rightarrow> real) \<Rightarrow> nat list \<Rightarrow> nat list \<Rightarrow> nat list \<Rightarrow> nat
     \<Rightarrow> ('m, 'k, 'l) pbt \<Rightarrow> py_error + (nat \<times> ('m, 'k, 'l) pbt)" where
  "exploit_loop c rng best worst [] pos s = Inr (pos, s)"
| "exploit_loop c rng best worst (idx # idxs) pos s =
     (if \<not> idx < length worst then Inl IndexError
      else if \<not> worst ! idx < length (population s) then Inl IndexError
      else if \<not> idx < length best then Inl IndexError
      else if \<not> best ! idx < length (population s) then Inl IndexError
      else exploit_loop c rng best worst idxs (Suc pos)
             (exploit_pair c (rng pos) (best ! idx) (worst ! idx) s))"

text \<open>\<open>exploit_explore\<close>: \<open>ranks[:num]\<close> and \<open>ranks[-num:]\<close>; the latter is the
  whole list when \<open>num\<close> is 0.\<close>

definition exploit_explore ::
  "('m, 'w, 'k, 'l) collab \<Rightarrow> (nat \<Rightarrow> real) \<Rightarrow> nat \<Rightarrow> ('m, 'k, 'l) pbt
     \<Rightarrow> py_error + (nat \<times> ('m, 'k, 'l) pbt)" where
  "exploit_explore c rng pos s =
     (case ranker s of
        Inl e \<Rightarrow> Inl e
      | Inr ranks \<Rightarrow>
          let num = num_pairs (pop_size s);
              best = take num ranks;
              worst = (if num = 0 then ranks else drop (length ranks - num) ranks)
          in exploit_loop c rng best worst [0..<num] pos s)"

text \<open>\<open>run\<close>: the loop over \<open>range(self.generations)\<close>, with \<open>n\<close> iterations left.
  \<open>np.max(self.scores[-1])\<close> raises \<open>ValueError\<close> on an empty list.\<close>

fun run_loop ::
  "('m, 'w, 'k, 'l) collab \<Rightarrow> (nat \<Rightarrow> real) \<Rightarrow> nat \<Rightarrow> nat \<Rightarrow> ('m, 'k, 'l) pbt
     \<Rightarrow> py_error + (nat \<times> ('m, 'k, 'l) pbt)" where
  "run_loop c rng 0 pos s = Inr (pos, s)"
| "run_loop c rng (Suc n) pos s =
     (case exploit_explore c rng pos (run_generation c s) of
        Inl e \<Rightarrow> Inl e
      | Inr (pos', s') \<Rightarrow>
          if last (scores s') = [] then Inl ValueError
          else run_loop c rng n pos' s')"

definition run ::
  "('m, 'w, 'k, 'l) collab \<Rightarrow> (nat \<Rightarrow> real) \<Rightarrow> nat \<Rightarrow> ('m, 'k, 'l) pbt
     \<Rightarrow> py_error + (nat \<times> ('m, 'k, 'l) pbt)" where
  "run c rng pos s = run_loop c rng (generations s) pos s"


subsection \<open>The pair step in the words of the specification\<close>

text \<open>Steps 3 to 5 of \<open>exploit_explore\<close> in the specification, for one pair and one
  factor, without the update of the stored configuration: the trainable of the worst
  member \<open>w\<close> receives the state of the best member \<open>b\<close> and then the hyperparameters of
  \<open>b\<close>, every value multiplied by the one factor. It is compared with \<open>exploit_pair\<close>
  in lemma \<open>exploit_pair_spec\<close>.\<close>

definition spec_pair_step ::
  "('m, 'w, 'k, 'l) collab \<Rightarrow> real \<Rightarrow> nat \<Rightarrow> nat \<Rightarrow> ('m, 'k, 'l) pbt \<Rightarrow> ('m, 'k, 'l) pbt" where
  "spec_pair_step c factor b w s =
     s\<lparr>population := (population s)
         [w := (population s ! w)
            \<lparr>w_model := set_hyperparameters c
               (set_weights c (w_model (population s ! w)) (get_weights c (w_model (population s ! b))))
               (map (\<lambda>(p, v). (p, v * factor)) (hyperparameters (w_config (population s ! b))))\<rparr>]\<rparr>"

subsection \<open>A small trainable and the scenario of the specification\<close>

text \<open>A trainable for the examples: a model is its weights (an integer) with its current
  hyperparameters. Training adds the number of epochs to the weights and reports the old
  weights as the only loss; the score is the weights times the number of episodes.\<close>

definition toy_collab :: "(int \<times> hparams, int, nat, real list) collab" where
  "toy_collab =
     \<lparr>model_cls = (\<lambda>hp. (0, hp)),
      trainer_fn = (\<lambda>m epochs. ([real_of_int (fst m)], (fst m + int epochs, snd m))),
      evaluator_fn = (\<lambda>m episodes. (real_of_int (fst m) * real episodes, m)),
      get_weights = fst,
      set_weights = (\<lambda>m w. (w, snd m)),
      set_hyperparameters = (\<lambda>m hp. (fst m, hp))\<rparr>"

definition toy_config :: "real \<Rightarrow> nat config" where
  "toy_config lr =
     \<lparr>generation_entry = 0, hyperparameters = [(''lr'', lr), (''dropout'', 1 / 2)],
      trainer = 1, evaluator = 2\<rparr>"

definition toy_worker :: "int \<Rightarrow> real \<Rightarrow> (int \<times> hparams, nat, real list) worker" where
  "toy_worker wt lr =
     \<lparr>w_model = (wt, hyperparameters (toy_config lr)), w_config = toy_config lr,
      w_losses = None, w_score = None\<rparr>"

text \<open>The scenario of the specification: five members whose most recent scores are
  \<open>[1, 5, 3, 2, 4]\<close>, with the rank direction as a parameter.\<close>

definition scenario5 :: "string \<Rightarrow> (int \<times> hparams, nat, real list) pbt" where
  "scenario5 rnk =
     \<lparr>pop_size = 5, generations = 3, generation = 1, rank = rnk, explore = (1.2, 0.8),
      config = toy_config 1, losses = [[[], [], [], [], []]], scores = [[1, 5, 3, 2, 4]],
      population = [toy_worker 10 1, toy_worker 11 2, toy_worker 12 3, toy_worker 13 4,
                    toy_worker 14 5]\<rparr>"

text \<open>A scheduler as the constructor builds it from \<open>toy_config 2\<close> with the scales
  below, two members and two generations, when every draw is 0 (lemma \<open>toy_init\<close>).\<close>

definition toy_scales :: "string \<rightharpoonup> real" where
  "toy_scales = [''lr'' \<mapsto> 2, ''dropout'' \<mapsto> 1]"

definition toy_start :: "(int \<times> hparams, nat, real list) pbt" where
  "toy_start =
     \<lparr>pop_size = 2, generations = 2, generation = 0, rank = ''high'', explore = (1.2, 0.8),
      config = toy_config 2, losses = [], scores = [],
      population =
        [\<lparr>w_model = (0, [(''lr'', 1), (''dropout'', 1 / 2)]),
          w_config = (toy_config 2)\<lparr>hyperparameters := [(''lr'', 1), (''dropout'', 1 / 2)]\<rparr>,
          w_losses = None, w_score = None\<rparr>,
         \<lparr>w_model = (0, [(''lr'', 1), (''dropout'', 1 / 2)]),
          w_config = (toy_config 2)\<lparr>hyperparameters := [(''lr'', 1), (''dropout'', 1 / 2)]\<rparr>,
          w_losses = None, w_score = None\<rparr>]\<rparr>"

text \<open>The scenario with ties: members 0 and 2 and members 1 and 3 have equal scores.\<close>

definition scenario_ties :: "(int \<times> hparams, nat, real list) pbt" where
  "scenario_ties = (scenario5 ''high'')\<lparr>scores := [[3, 5, 3, 5, 1]]\<rparr>"

subsection \<open>A caller: sequences of method calls\<close>

text \<open>The public methods of a constructed scheduler, and a caller that invokes them one
  after the other; an exception ends the sequence. \<open>ranker\<close> returns its ranking to the
  caller and changes nothing.\<close>

datatype operation = Call_run_generation | Call_ranker | Call_exploit_explore | Call_run

fun call ::
  "('m, 'w, 'k, 'l) collab \<Rightarrow> (nat \<Rightarrow> real) \<Rightarrow> operation \<Rightarrow> nat \<Rightarrow> ('m, 'k, 'l) pbt
     \<Rightarrow> py_error + (nat \<times> ('m, 'k, 'l) pbt)" where
  "call c rng Call_run_generation pos s = Inr (pos, run_generation c s)"
| "call c rng Call_ranker pos s = (case ranker s of Inl e \<Rightarrow> Inl e | Inr ranks \<Rightarrow> Inr (pos, s))"
| "call c rng Call_exploit_explore pos s = exploit_explore c rng pos s"
| "call c rng Call_run pos s = run c rng pos s"

fun calls ::
  "('m, 'w, 'k, 'l) collab \<Rightarrow> (nat \<Rightarrow> real) \<Rightarrow> operation list \<Rightarrow> nat \<Rightarrow> ('m, 'k, 'l) pbt
     \<Rightarrow> py_error + (nat \<times> ('m, 'k, 'l) pbt)" where
  "calls c rng [] pos s = Inr (pos, s)"
| "calls c rng (op # ops) pos s =
     (case call c rng op pos s of
        Inl e \<Rightarrow> Inl e
      | Inr (pos', s') \<Rightarrow> calls c rng ops pos' s')"

subsection \<open>The initial value in the words of the specification\<close>

text \<open>The formula of the specification for the initial value of a hyperparameter,
  \<open>uniform(base/scale, base*scale) * base_value\<close>, with the draw \<open>u\<close> as an input. It is
  compared with the value the constructor stores.\<close>

definition spec_initial_value :: "real \<Rightarrow> real \<Rightarrow> real \<Rightarrow> real" where
  "spec_initial_value base_value scale u =
     np_uniform (base_value / scale) (base_value * scale) u * base_value"

section \<open>Properties\<close>

subsection \<open>Worker\<close>

lemma Worker_run_set:
  "Worker_run c w =
     (case trainer_fn c (w_model w) (trainer (w_config w)) of (l, m1) \<Rightarrow>
        case evaluator_fn c m1 (evaluator (w_config w)) of (sc, m2) \<Rightarrow>
          (w\<lparr>w_model := m2, w_losses := Some l, w_score := Some sc\<rparr>, l, sc))"
  by (simp add: Worker_run_def Worker_train_def Worker_evaluate_def Let_def split: prod.splits)

lemma Worker_run_config: "w_config (fst (Worker_run c w)) = w_config w"
  by (simp add: Worker_run_set split: prod.splits)

subsection \<open>One generation\<close>

lemma run_generation_loop_upt:
  "n = length (population s) \<Longrightarrow> i \<le> n \<Longrightarrow> scores s \<noteq> [] \<Longrightarrow> losses s \<noteq> [] \<Longrightarrow>
   run_generation_loop c [i..<n] s =
     s\<lparr>population :=
         take i (population s) @ map (\<lambda>w. fst (Worker_run c w)) (drop i (population s)),
       losses := butlast (losses s) @
         [last (losses s) @ map (\<lambda>w. fst (snd (Worker_run c w))) (drop i (population s))],
       scores := butlast (scores s) @
         [last (scores s) @ map (\<lambda>w. snd (snd (Worker_run c w))) (drop i (population s))]\<rparr>"
proof (induction "n - i" arbitrary: i s)
  case 0
  then show ?case by simp
next
  case (Suc k)
  then have lt: "i < n" by simp
  obtain w' l sc where wr: "Worker_run c (population s ! i) = (w', l, sc)"
    by (cases "Worker_run c (population s ! i)") auto
  let ?s1 = "s\<lparr>population := (population s)[i := w'],
               losses := append_last l (losses s),
               scores := append_last sc (scores s)\<rparr>"
  have step: "run_generation_loop c [i..<n] s = run_generation_loop c [Suc i..<n] ?s1"
    using lt wr by (simp add: upt_conv_Cons)
  have ih: "run_generation_loop c [Suc i..<n] ?s1 =
     ?s1\<lparr>population :=
         take (Suc i) (population ?s1) @
           map (\<lambda>w. fst (Worker_run c w)) (drop (Suc i) (population ?s1)),
       losses := butlast (losses ?s1) @
         [last (losses ?s1) @ map (\<lambda>w. fst (snd (Worker_run c w))) (drop (Suc i) (population ?s1))],
       scores := butlast (scores ?s1) @
         [last (scores ?s1) @ map (\<lambda>w. snd (snd (Worker_run c w))) (drop (Suc i) (population ?s1))]\<rparr>"
    by (rule Suc.hyps(1)) (use Suc.hyps(2) Suc.prems lt in \<open>simp_all add: append_last_def\<close>)
  have d: "drop i (population s) = population s ! i # drop (Suc i) (population s)"
    using lt Suc.prems(1) by (simp add: Cons_nth_drop_Suc)
  have t: "take (Suc i) ((population s)[i := w']) = take i (population s) @ [w']"
    using lt Suc.prems(1) by (simp add: take_Suc_conv_app_nth)
  show ?case
    unfolding step ih using d t wr by (simp add: append_last_def)
qed

lemma run_generation_eq:
  "run_generation c s =
     s\<lparr>population := map (\<lambda>w. fst (Worker_run c w)) (population s),
       losses := losses s @ [map (\<lambda>w. fst (snd (Worker_run c w))) (population s)],
       scores := scores s @ [map (\<lambda>w. snd (snd (Worker_run c w))) (population s)],
       generation := generation s + 1\<rparr>"
  using run_generation_loop_upt[of "length (population s)"
      "s\<lparr>losses := losses s @ [[]], scores := scores s @ [[]]\<rparr>" 0 c]
  by (simp add: run_generation_def Let_def)

lemma run_generation_configs:
  "map w_config (population (run_generation c s)) = map w_config (population s)"
  by (simp add: run_generation_eq Worker_run_config)

subsection \<open>Ranking\<close>

lemma filter_nth_order:
  "sorted_wrt R (filter P xs) \<Longrightarrow> i < j \<Longrightarrow> j < length xs \<Longrightarrow> P (xs ! i) \<Longrightarrow> P (xs ! j)
     \<Longrightarrow> R (xs ! i) (xs ! j)"
proof (induction xs arbitrary: i j)
  case Nil
  then show ?case by simp
next
  case (Cons x xs)
  from Cons.prems(2) obtain j' where j: "j = Suc j'" by (cases j) auto
  have tl: "sorted_wrt R (filter P xs)"
    using Cons.prems(1) by (auto split: if_splits)
  show ?case
  proof (cases i)
    case 0
    with Cons.prems j have "P x" and "xs ! j' \<in> set (filter P xs)" by auto
    with Cons.prems(1) 0 j show ?thesis by auto
  next
    case (Suc i')
    with Cons.IH[OF tl, of i' j'] Cons.prems j show ?thesis by simp
  qed
qed

lemma sort_key_upt_stable:
  assumes "i < j" "j < n" "f (sort_key f [0..<n] ! i) = f (sort_key f [0..<n] ! j)"
  shows "sort_key f [0..<n] ! i < sort_key f [0..<n] ! j"
proof -
  let ?r = "sort_key f [0..<n]"
  let ?k = "f (?r ! j)"
  have "filter (\<lambda>y. f y = ?k) ?r = filter (\<lambda>y. f y = ?k) [0..<n]"
    by (rule sort_key_stable)
  moreover have "sorted_wrt (<) (filter (\<lambda>y. f y = ?k) [0..<n])"
    by (rule sorted_wrt_filter) simp
  ultimately have "sorted_wrt (<) (filter (\<lambda>y. f y = ?k) ?r)" by simp
  from filter_nth_order[OF this, of i j] assms show ?thesis by simp
qed

lemma sort_key_upt_sorted:
  assumes "i \<le> j" "j < n"
  shows "f (sort_key f [0..<n] ! i) \<le> f (sort_key f [0..<n] ! j)"
proof -
  have "sorted (map f (sort_key f [0..<n]))" by (rule sorted_sort_key)
  from sorted_nth_mono[OF this, of i j] assms show ?thesis by simp
qed

lemma sort_key_upt_hd:
  assumes "k < n"
  shows "f (hd (sort_key f [0..<n])) \<le> f k"
proof -
  let ?r = "sort_key f [0..<n]"
  have "k \<in> set ?r" using assms by simp
  then obtain j where j: "j < length ?r" "?r ! j = k" unfolding in_set_conv_nth by blast
  have "length ?r = n" by simp
  with assms have "?r \<noteq> []" by (metis length_0_conv not_less_zero)
  then have "hd ?r = ?r ! 0" by (simp add: hd_conv_nth)
  with sort_key_upt_sorted[of 0 j n f] j show ?thesis by simp
qed

lemma insort_key_agree:
  "f x = g x \<Longrightarrow> (\<And>y. y \<in> set ys \<Longrightarrow> f y = g y) \<Longrightarrow> insort_key f x ys = insort_key g x ys"
  by (induction ys) auto

lemma sort_key_agree:
  "(\<And>x. x \<in> set xs \<Longrightarrow> f x = g x) \<Longrightarrow> sort_key f xs = sort_key g xs"
proof (induction xs)
  case Nil
  then show ?case by simp
next
  case (Cons x xs)
  then have "sort_key f xs = sort_key g xs" by simp
  moreover have "insort_key f x (sort_key g xs) = insort_key g x (sort_key g xs)"
    by (rule insort_key_agree) (simp_all add: Cons.prems)
  ultimately show ?case by simp
qed

lemma ranker_eq:
  assumes "scores s \<noteq> []"
  shows "ranker s =
     Inr (sort_key (\<lambda>k. if rank s = ''high'' then - (last (scores s) ! k) else last (scores s) ! k)
            [0..<length (last (scores s))])"
proof -
  let ?sc = "last (scores s)"
  have "sort_key (\<lambda>k. map (\<lambda>x. x * (- 1)) ?sc ! k) [0..<length ?sc] =
        sort_key (\<lambda>k. - (?sc ! k)) [0..<length ?sc]"
    by (rule sort_key_agree) simp
  with assms show ?thesis by (simp add: ranker_def Let_def)
qed

lemma ranker_perm:
  assumes "ranker s = Inr ranks"
  shows "scores s \<noteq> [] \<and> length ranks = length (last (scores s)) \<and>
         set ranks = {0..<length (last (scores s))} \<and> distinct ranks"
proof -
  from assms have ne: "scores s \<noteq> []" by (auto simp: ranker_def split: if_splits)
  from assms ranker_eq[OF ne] show ?thesis using ne by auto
qed

subsection \<open>Exploit and explore\<close>

lemma dict_set_mid:
  "k \<notin> fst ` set xs \<Longrightarrow> dict_set k v (xs @ (k, v0) # ys) = xs @ (k, v) # ys"
  by (induction xs) auto

lemma perturb_gen:
  "distinct (map fst (done @ items)) \<Longrightarrow> map fst done' = map fst done \<Longrightarrow>
   perturb factor items (done' @ items) = done' @ map (\<lambda>(p, v). (p, v * factor)) items"
proof (induction items arbitrary: "done" done')
  case Nil
  then show ?case by simp
next
  case (Cons a items)
  obtain p v where a: "a = (p, v)" by (cases a)
  have notin: "p \<notin> fst ` set done'"
  proof -
    have "p \<notin> set (map fst done)" using Cons.prems(1) a by auto
    then show ?thesis using Cons.prems(2) by (metis list.set_map)
  qed
  have "perturb factor (a # items) (done' @ a # items) =
        perturb factor items ((done' @ [(p, v * factor)]) @ items)"
    using a notin by (simp add: dict_set_mid)
  also have "\<dots> = (done' @ [(p, v * factor)]) @ map (\<lambda>(p, v). (p, v * factor)) items"
    by (rule Cons.IH[of "done @ [a]"]) (use Cons.prems a in auto)
  finally show ?case using a by simp
qed

lemma perturb_eq_map:
  "distinct (map fst d) \<Longrightarrow> perturb factor d d = map (\<lambda>(p, v). (p, v * factor)) d"
  using perturb_gen[of "[]" d "[]" factor] by simp

lemma exploit_pair_configs:
  "map w_config (population (exploit_pair c u b w s)) = map w_config (population s)"
proof (cases "w < length (population s)")
  case True
  then show ?thesis
    by (simp add: exploit_pair_def Let_def map_update list_update_same_conv)
next
  case False
  then show ?thesis
    by (simp add: exploit_pair_def Let_def list_update_beyond)
qed

lemma exploit_pair_frame:
  "generation (exploit_pair c u b w s) = generation s \<and>
   pop_size (exploit_pair c u b w s) = pop_size s \<and>
   generations (exploit_pair c u b w s) = generations s \<and>
   rank (exploit_pair c u b w s) = rank s \<and>
   explore (exploit_pair c u b w s) = explore s \<and>
   config (exploit_pair c u b w s) = config s \<and>
   losses (exploit_pair c u b w s) = losses s \<and>
   scores (exploit_pair c u b w s) = scores s \<and>
   length (population (exploit_pair c u b w s)) = length (population s)"
  by (simp add: exploit_pair_def Let_def)

lemma exploit_loop_frame:
  "exploit_loop c rng best worst idxs pos s = Inr (pos', s') \<Longrightarrow>
   generation s' = generation s \<and>
   pop_size s' = pop_size s \<and>
   generations s' = generations s \<and>
   rank s' = rank s \<and>
   explore s' = explore s \<and>
   config s' = config s \<and>
   losses s' = losses s \<and>
   scores s' = scores s \<and>
   map w_config (population s') = map w_config (population s) \<and>
   pos' = pos + length idxs"
proof (induction idxs arbitrary: pos s)
  case Nil
  then show ?case by simp
next
  case (Cons idx idxs)
  let ?s1 = "exploit_pair c (rng pos) (best ! idx) (worst ! idx) s"
  from Cons.prems have "exploit_loop c rng best worst idxs (Suc pos) ?s1 = Inr (pos', s')"
    by (simp split: if_splits)
  from Cons.IH[OF this] show ?case
    by (simp add: exploit_pair_frame exploit_pair_configs)
qed

lemma exploit_explore_frame:
  "exploit_explore c rng pos s = Inr (pos', s') \<Longrightarrow>
   generation s' = generation s \<and>
   pop_size s' = pop_size s \<and>
   generations s' = generations s \<and>
   rank s' = rank s \<and>
   explore s' = explore s \<and>
   config s' = config s \<and>
   losses s' = losses s \<and>
   scores s' = scores s \<and>
   map w_config (population s') = map w_config (population s) \<and>
   pos' = pos + num_pairs (pop_size s)"
  using exploit_loop_frame[of c rng _ _ "[0..<num_pairs (pop_size s)]" pos s pos' s']
  by (auto simp: exploit_explore_def Let_def split: sum.splits)

lemma num_pairs_div: "num_pairs n = (n + 4) div 5"
proof -
  have "\<lceil>0.2 * real n\<rceil> = \<lceil>real_of_int (int n) / real_of_int 5\<rceil>" by simp
  also have "\<dots> = - ((- int n) div 5)" by (simp only: ceiling_divide_eq_div)
  finally show ?thesis unfolding num_pairs_def by linarith
qed

lemma num_pairs_le: "num_pairs n \<le> n"
  by (simp add: num_pairs_div)

lemma foldl_inv_cong:
  assumes "I s" and "\<And>s x. I s \<Longrightarrow> x \<in> set xs \<Longrightarrow> f s x = g s x \<and> I (f s x)"
  shows "foldl f s xs = foldl g s xs"
  using assms
proof (induction xs arbitrary: s)
  case Nil
  then show ?case by simp
next
  case (Cons a xs)
  have fa: "f s a = g s a" "I (f s a)"
    using Cons.prems(1) Cons.prems(2)[of s a] by auto
  have "foldl f (f s a) xs = foldl g (f s a) xs"
  proof (rule Cons.IH)
    show "I (f s a)" by (rule fa(2))
  next
    fix s' x
    assume inv: "I s'" and "x \<in> set xs"
    then have "x \<in> set (a # xs)" by simp
    from Cons.prems(2)[OF inv this] show "f s' x = g s' x \<and> I (f s' x)" .
  qed
  then show ?case using fa by simp
qed

lemma exploit_loop_upt:
  assumes "num \<le> length best" "num \<le> length worst"
      and "\<forall>idx<num. best ! idx < length (population s) \<and> worst ! idx < length (population s)"
      and "i \<le> num"
  shows "exploit_loop c rng best worst [i..<num] (pos0 + i) s =
     Inr (pos0 + num,
          foldl (\<lambda>s' idx. exploit_pair c (rng (pos0 + idx)) (best ! idx) (worst ! idx) s') s [i..<num])"
  using assms
proof (induction "num - i" arbitrary: i s)
  case 0
  then show ?case by simp
next
  case (Suc k)
  then have lt: "i < num" by simp
  let ?s1 = "exploit_pair c (rng (pos0 + i)) (best ! i) (worst ! i) s"
  have len: "length (population ?s1) = length (population s)"
    by (simp add: exploit_pair_frame)
  have "exploit_loop c rng best worst [Suc i..<num] (pos0 + Suc i) ?s1 =
     Inr (pos0 + num,
          foldl (\<lambda>s' idx. exploit_pair c (rng (pos0 + idx)) (best ! idx) (worst ! idx) s') ?s1 [Suc i..<num])"
    by (rule Suc.hyps(1)) (use Suc.hyps(2) Suc.prems lt len in simp_all)
  then show ?case
    using lt Suc.prems by (simp add: upt_conv_Cons)
qed

lemma exploit_pair_spec:
  assumes "distinct (map fst (hyperparameters (w_config (population s ! b))))"
      and "w < length (population s)"
  shows "exploit_pair c u b w s =
     spec_pair_step c (if u < 0.5 then fst (explore s) else snd (explore s)) b w s"
proof (cases "b = w")
  case True
  with assms show ?thesis
    by (simp add: exploit_pair_def spec_pair_step_def Let_def perturb_eq_map)
next
  case False
  with assms show ?thesis
    by (simp add: exploit_pair_def spec_pair_step_def Let_def perturb_eq_map)
qed

lemma exploit_explore_eq:
  fixes s :: "('m, 'k, 'l) pbt"
  assumes r: "ranker s = Inr ranks"
      and len: "length (last (scores s)) = pop_size s" "length (population s) = pop_size s"
      and dist: "\<forall>w\<in>set (population s). distinct (map fst (hyperparameters (w_config w)))"
  shows "exploit_explore c rng pos s =
     Inr (pos + num_pairs (pop_size s),
          foldl (\<lambda>s' idx. spec_pair_step c
                   (if rng (pos + idx) < 0.5 then fst (explore s) else snd (explore s))
                   (ranks ! idx) (ranks ! (pop_size s - num_pairs (pop_size s) + idx)) s')
            s [0..<num_pairs (pop_size s)])"
proof -
  let ?n = "pop_size s"
  let ?num = "num_pairs ?n"
  let ?best = "take ?num ranks"
  let ?worst = "if ?num = 0 then ranks else drop (length ranks - ?num) ranks"
  from ranker_perm[OF r] len
  have rl: "length ranks = ?n" and rs: "set ranks = {0..<?n}" by simp_all
  have le: "?num \<le> ?n" by (rule num_pairs_le)
  have b: "\<And>idx. idx < ?num \<Longrightarrow> ?best ! idx = ranks ! idx" by simp
  have w: "\<And>idx. idx < ?num \<Longrightarrow> ?worst ! idx = ranks ! (?n - ?num + idx)"
    using rl le by simp
  have inr: "\<And>k. k < ?n \<Longrightarrow> ranks ! k < ?n"
    using rl rs by (metis atLeastLessThan_iff nth_mem)
  have valid: "\<forall>idx<?num. ?best ! idx < length (population s) \<and> ?worst ! idx < length (population s)"
  proof (intro allI impI)
    fix idx assume i: "idx < ?num"
    then have "idx < ?n" "?n - ?num + idx < ?n" using le by linarith+
    then show "?best ! idx < length (population s) \<and> ?worst ! idx < length (population s)"
      using b[OF i] w[OF i] inr len by simp
  qed
  have loop: "exploit_loop c rng ?best ?worst [0..<?num] (pos + 0) s =
     Inr (pos + ?num,
          foldl (\<lambda>s' idx. exploit_pair c (rng (pos + idx)) (?best ! idx) (?worst ! idx) s') s [0..<?num])"
    by (rule exploit_loop_upt) (use valid rl le in auto)
  let ?I = "\<lambda>s' :: ('m, 'k, 'l) pbt. map w_config (population s') = map w_config (population s) \<and> explore s' = explore s"
  have fold: "foldl (\<lambda>s' idx. exploit_pair c (rng (pos + idx)) (?best ! idx) (?worst ! idx) s') s [0..<?num] =
     foldl (\<lambda>s' idx. spec_pair_step c
                   (if rng (pos + idx) < 0.5 then fst (explore s) else snd (explore s))
                   (ranks ! idx) (ranks ! (?n - ?num + idx)) s') s [0..<?num]"
  proof (rule foldl_inv_cong[where I = ?I])
    show "?I s" by simp
  next
    fix s' idx
    assume inv: "?I s'" and "idx \<in> set [0..<?num]"
    then have i: "idx < ?num" by simp
    then have i2: "idx < ?n" "?n - ?num + idx < ?n" using le by linarith+
    from inv have l': "length (population s') = ?n"
      using len(2) by (metis length_map)
    have cfg: "\<And>k. k < ?n \<Longrightarrow> w_config (population s' ! k) = w_config (population s ! k)"
      using inv l' len(2) by (metis nth_map)
    have d: "distinct (map fst (hyperparameters (w_config (population s' ! (ranks ! idx)))))"
      using cfg[OF inr[OF i2(1)]] dist inr[OF i2(1)] len(2) by (metis nth_mem)
    have "exploit_pair c (rng (pos + idx)) (?best ! idx) (?worst ! idx) s' =
          spec_pair_step c (if rng (pos + idx) < 0.5 then fst (explore s') else snd (explore s'))
            (?best ! idx) (?worst ! idx) s'"
      by (rule exploit_pair_spec) (use d b[OF i] w[OF i] inr[OF i2(2)] l' in simp_all)
    moreover have "?I (exploit_pair c (rng (pos + idx)) (?best ! idx) (?worst ! idx) s')"
      using inv by (simp add: exploit_pair_configs exploit_pair_frame)
    ultimately show "exploit_pair c (rng (pos + idx)) (?best ! idx) (?worst ! idx) s' =
          spec_pair_step c (if rng (pos + idx) < 0.5 then fst (explore s) else snd (explore s))
            (ranks ! idx) (ranks ! (?n - ?num + idx)) s' \<and>
          ?I (exploit_pair c (rng (pos + idx)) (?best ! idx) (?worst ! idx) s')"
      using inv b[OF i] w[OF i] by simp
  qed
  show ?thesis
    using loop fold r by (simp add: exploit_explore_def Let_def)
qed

lemma exploit_explore_returns:
  fixes s :: "('m, 'k, 'l) pbt"
  assumes ne: "scores s \<noteq> []"
      and len: "length (last (scores s)) = pop_size s" "length (population s) = pop_size s"
  shows "\<exists>s'. exploit_explore c rng pos s = Inr (pos + num_pairs (pop_size s), s')"
proof -
  let ?n = "pop_size s"
  let ?num = "num_pairs ?n"
  obtain ranks where r: "ranker s = Inr ranks"
    using ranker_eq[OF ne] by blast
  let ?best = "take ?num ranks"
  let ?worst = "if ?num = 0 then ranks else drop (length ranks - ?num) ranks"
  from ranker_perm[OF r] len
  have rl: "length ranks = ?n" and rs: "set ranks = {0..<?n}" by simp_all
  have le: "?num \<le> ?n" by (rule num_pairs_le)
  have inr: "\<And>k. k < ?n \<Longrightarrow> ranks ! k < ?n"
    using rl rs by (metis atLeastLessThan_iff nth_mem)
  have valid: "\<forall>idx<?num. ?best ! idx < length (population s) \<and> ?worst ! idx < length (population s)"
  proof (intro allI impI)
    fix idx assume i: "idx < ?num"
    then have "idx < ?n" "?n - ?num + idx < ?n" using le by linarith+
    then show "?best ! idx < length (population s) \<and> ?worst ! idx < length (population s)"
      using i inr len rl le by simp
  qed
  have "exploit_loop c rng ?best ?worst [0..<?num] (pos + 0) s =
     Inr (pos + ?num,
          foldl (\<lambda>s' idx. exploit_pair c (rng (pos + idx)) (?best ! idx) (?worst ! idx) s') s [0..<?num])"
    by (rule exploit_loop_upt) (use valid rl le in auto)
  then show ?thesis using r by (simp add: exploit_explore_def Let_def)
qed

subsection \<open>The run loop\<close>

lemma run_loop_frame:
  "run_loop c rng n pos s = Inr (pos', s') \<Longrightarrow>
   generation s' = generation s + n \<and>
   pop_size s' = pop_size s \<and>
   generations s' = generations s \<and>
   rank s' = rank s \<and>
   explore s' = explore s \<and>
   config s' = config s \<and>
   map w_config (population s') = map w_config (population s) \<and>
   pos' = pos + n * num_pairs (pop_size s) \<and>
   (\<exists>ls ss. losses s' = losses s @ ls \<and> scores s' = scores s @ ss \<and>
      length ls = n \<and> length ss = n \<and>
      (\<forall>e\<in>set ls. length e = length (population s)) \<and>
      (\<forall>e\<in>set ss. length e = length (population s)))"
proof (induction n arbitrary: pos s)
  case 0
  then show ?case by simp
next
  case (Suc n)
  let ?s1 = "run_generation c s"
  from Suc.prems obtain p2 s2 where
    ee: "exploit_explore c rng pos ?s1 = Inr (p2, s2)" and
    rest: "run_loop c rng n p2 s2 = Inr (pos', s')"
    by (auto split: sum.splits if_splits)
  note f1 = exploit_explore_frame[OF ee]
  note ih = Suc.IH[OF rest]
  have cfg2: "map w_config (population s2) = map w_config (population s)"
    using f1 by (simp add: run_generation_configs)
  then have len2: "length (population s2) = length (population s)"
    by (rule map_eq_imp_length_eq)
  from ih obtain ls ss where h:
    "losses s' = losses s2 @ ls" "scores s' = scores s2 @ ss" "length ls = n" "length ss = n"
    "\<forall>e\<in>set ls. length e = length (population s2)"
    "\<forall>e\<in>set ss. length e = length (population s2)"
    by blast
  let ?l = "map (\<lambda>w. fst (snd (Worker_run c w))) (population s)"
  let ?sc = "map (\<lambda>w. snd (snd (Worker_run c w))) (population s)"
  have "losses s' = losses s @ (?l # ls)" "scores s' = scores s @ (?sc # ss)"
    using h f1 by (simp_all add: run_generation_eq)
  moreover have "length (?l # ls) = Suc n" "length (?sc # ss) = Suc n"
    using h by simp_all
  moreover have "\<forall>e\<in>set (?l # ls). length e = length (population s)"
    "\<forall>e\<in>set (?sc # ss). length e = length (population s)"
    using h len2 by simp_all
  ultimately have ex: "\<exists>ls ss. losses s' = losses s @ ls \<and> scores s' = scores s @ ss \<and>
      length ls = Suc n \<and> length ss = Suc n \<and>
      (\<forall>e\<in>set ls. length e = length (population s)) \<and>
      (\<forall>e\<in>set ss. length e = length (population s))"
    by blast
  have "generation s' = generation s + Suc n" "pop_size s' = pop_size s"
    "generations s' = generations s" "rank s' = rank s" "explore s' = explore s"
    "config s' = config s" "pos' = pos + Suc n * num_pairs (pop_size s)"
    using ih f1 by (simp_all add: run_generation_eq)
  moreover have "map w_config (population s') = map w_config (population s)"
    using ih cfg2 by simp
  ultimately show ?case using ex by simp
qed

lemma run_loop_returns:
  fixes s :: "('m, 'k, 'l) pbt"
  assumes "length (population s) = pop_size s" and "0 < pop_size s"
  shows "\<exists>pos' s'. run_loop c rng n pos s = Inr (pos', s')"
  using assms
proof (induction n arbitrary: pos s)
  case 0
  then show ?case by simp
next
  case (Suc n)
  let ?s1 = "run_generation c s"
  have s1: "scores ?s1 \<noteq> []" "length (last (scores ?s1)) = pop_size ?s1"
    "length (population ?s1) = pop_size ?s1" "pop_size ?s1 = pop_size s"
    using Suc.prems by (simp_all add: run_generation_eq)
  from exploit_explore_returns[OF s1(1-3), of c rng pos] obtain s2 where
    ee: "exploit_explore c rng pos ?s1 = Inr (pos + num_pairs (pop_size ?s1), s2)" by blast
  note f = exploit_explore_frame[OF ee]
  have "length (population s2) = length (population ?s1)"
    using f by (metis length_map)
  with f s1 Suc.prems have s2: "length (population s2) = pop_size s2" "0 < pop_size s2"
    "last (scores s2) \<noteq> []"
    by auto
  from Suc.IH[OF s2(1,2)] obtain pos' s' where
    "run_loop c rng n (pos + num_pairs (pop_size ?s1)) s2 = Inr (pos', s')" by blast
  with ee s2(3) show ?case by simp
qed

lemma run_loop_empty_population:
  fixes s :: "('m, 'k, 'l) pbt"
  assumes "population s = []" and "pop_size s = 0"
  shows "run_loop c rng (Suc n) pos s = Inl ValueError"
proof -
  let ?s1 = "run_generation c s"
  have s1: "scores ?s1 \<noteq> []" "length (last (scores ?s1)) = pop_size ?s1"
    "length (population ?s1) = pop_size ?s1" "last (scores ?s1) = []"
    using assms by (simp_all add: run_generation_eq)
  from exploit_explore_returns[OF s1(1-3), of c rng pos] obtain s2 where
    ee: "exploit_explore c rng pos ?s1 = Inr (pos + num_pairs (pop_size ?s1), s2)" by blast
  from exploit_explore_frame[OF ee] s1(4) have "last (scores s2) = []" by simp
  with ee show ?thesis by simp
qed

subsection \<open>The constructor\<close>

lemma init_rank:
  "PBTTrainer_init c rng pos n g rand_scales cfg expl rnk =
     map_sum id (\<lambda>(p, s). (p, s\<lparr>rank := rnk\<rparr>))
       (PBTTrainer_init c rng pos n g rand_scales cfg expl rnk')"
  by (simp add: PBTTrainer_init_def split: sum.splits prod.splits)

lemma init_empty_population:
  "PBTTrainer_init c rng pos 0 g rand_scales cfg expl rnk =
     Inr (pos, \<lparr>pop_size = 0, generations = g, generation = 0, rank = rnk, explore = expl,
                config = cfg, losses = [], scores = [], population = []\<rparr>)"
  by (simp add: PBTTrainer_init_def)

lemma dict_set_keys:
  "k \<in> fst ` set d \<Longrightarrow> map fst (dict_set k v d) = map fst d"
  by (induction d) (fastforce simp: image_iff)+

lemma randomize_keys:
  "randomize rand_scales rng items pos new = Inr (pos', hp) \<Longrightarrow>
   fst ` set items \<subseteq> fst ` set new \<Longrightarrow> map fst hp = map fst new"
proof (induction items arbitrary: pos new)
  case Nil
  then show ?case by simp
next
  case (Cons a items)
  obtain p v where a: "a = (p, v)" by (cases a)
  from Cons.prems(1) a obtain sc where sc: "rand_scales p = Some sc" "sc \<noteq> 0"
    and rest: "randomize rand_scales rng items (Suc pos)
                 (dict_set p (np_uniform (1 / sc) sc (rng pos) * v) new) = Inr (pos', hp)"
    by (auto split: option.splits if_splits)
  have k: "map fst (dict_set p (np_uniform (1 / sc) sc (rng pos) * v) new) = map fst new"
    using Cons.prems(2) a by (simp add: dict_set_keys)
  have "fst ` set items \<subseteq> fst ` set (dict_set p (np_uniform (1 / sc) sc (rng pos) * v) new)"
    using Cons.prems(2) k by (metis (no_types, lifting) list.set_map set_subset_Cons subset_trans image_mono)
  from Cons.IH[OF rest this] k show ?case by simp
qed

lemma build_population_shape:
  "build_population c rand_scales rng cfg n pos pop = Inr (pos', pop') \<Longrightarrow>
   \<exists>ws. pop' = pop @ ws \<and> length ws = n \<and>
        (\<forall>w\<in>set ws. trainer (w_config w) = trainer cfg \<and> evaluator (w_config w) = evaluator cfg \<and>
                      map fst (hyperparameters (w_config w)) = map fst (hyperparameters cfg))"
proof (induction n arbitrary: pos pop)
  case 0
  then show ?case by simp
next
  case (Suc n)
  from Suc.prems obtain p1 hp where
    r: "randomize rand_scales rng (hyperparameters cfg) pos (hyperparameters cfg) = Inr (p1, hp)" and
    b: "build_population c rand_scales rng cfg n p1
          (pop @ [Worker_init c (cfg\<lparr>hyperparameters := hp\<rparr>)]) = Inr (pos', pop')"
    by (auto split: sum.splits)
  from Suc.IH[OF b] obtain ws where ws:
    "pop' = (pop @ [Worker_init c (cfg\<lparr>hyperparameters := hp\<rparr>)]) @ ws" "length ws = n"
    "\<forall>w\<in>set ws. trainer (w_config w) = trainer cfg \<and> evaluator (w_config w) = evaluator cfg \<and>
                      map fst (hyperparameters (w_config w)) = map fst (hyperparameters cfg)"
    by blast
  have k: "map fst hp = map fst (hyperparameters cfg)"
    by (rule randomize_keys[OF r]) simp
  let ?ws = "Worker_init c (cfg\<lparr>hyperparameters := hp\<rparr>) # ws"
  have "pop' = pop @ ?ws" "length ?ws = Suc n" using ws by simp_all
  moreover have "\<forall>w\<in>set ?ws. trainer (w_config w) = trainer cfg \<and> evaluator (w_config w) = evaluator cfg \<and>
                      map fst (hyperparameters (w_config w)) = map fst (hyperparameters cfg)"
    using ws(3) k by (simp add: Worker_init_def)
  ultimately show ?case by blast
qed

lemma PBTTrainer_init_shape:
  assumes "PBTTrainer_init c rng pos n g rand_scales cfg expl rnk = Inr (pos0, s0)"
  shows "pop_size s0 = n \<and> generations s0 = g \<and> generation s0 = 0 \<and> rank s0 = rnk \<and>
         explore s0 = expl \<and> config s0 = cfg \<and> losses s0 = [] \<and> scores s0 = [] \<and>
         length (population s0) = n \<and>
         (\<forall>w\<in>set (population s0).
            trainer (w_config w) = trainer cfg \<and> evaluator (w_config w) = evaluator cfg \<and>
            map fst (hyperparameters (w_config w)) = map fst (hyperparameters cfg))"
proof -
  from assms obtain pop where
    b: "build_population c rand_scales rng cfg n pos [] = Inr (pos0, pop)" and
    s: "s0 = \<lparr>pop_size = n, generations = g, generation = 0,
                      rank = rnk, explore = expl, config = cfg, losses = [], scores = [],
                      population = pop\<rparr>"
    by (auto simp: PBTTrainer_init_def split: sum.splits)
  from build_population_shape[OF b] s show ?thesis by auto
qed

lemma randomize_missing:
  assumes "\<forall>q\<in>fst ` set pre. rand_scales q \<noteq> None" and "rand_scales p = None"
  shows "randomize rand_scales rng (pre @ (p, v) # post) pos new =
     Inl (if \<exists>q\<in>fst ` set pre. rand_scales q = Some 0 then ZeroDivisionError else KeyError p)"
  using assms(1)
proof (induction pre arbitrary: pos new)
  case Nil
  then show ?case using assms(2) by simp
next
  case (Cons a pre)
  obtain q w where a: "a = (q, w)" by (cases a)
  from Cons.prems a obtain sc where sc: "rand_scales q = Some sc" by auto
  show ?case
  proof (cases "sc = 0")
    case True
    with a sc show ?thesis by auto
  next
    case False
    have "\<forall>q\<in>fst ` set pre. rand_scales q \<noteq> None" using Cons.prems by simp
    from Cons.IH[OF this] a sc False show ?thesis by simp
  qed
qed

lemma randomize_gen:
  assumes "distinct (map fst (done @ items))" and "map fst done' = map fst done"
      and "\<forall>p\<in>fst ` set items. \<exists>sc. rand_scales p = Some sc \<and> sc \<noteq> 0"
  shows "randomize rand_scales rng items pos (done' @ items) =
     Inr (pos + length items,
          done' @ map (\<lambda>(q, p, v). (p, np_uniform (1 / the (rand_scales p)) (the (rand_scales p))
                                         (rng q) * v))
                    (enumerate pos items))"
  using assms
proof (induction items arbitrary: pos "done" done')
  case Nil
  then show ?case by simp
next
  case (Cons a items)
  obtain p v where a: "a = (p, v)" by (cases a)
  from Cons.prems(3) a obtain sc where sc: "rand_scales p = Some sc" "sc \<noteq> 0" by auto
  let ?x = "np_uniform (1 / sc) sc (rng pos) * v"
  have notin: "p \<notin> fst ` set done'"
  proof -
    have "p \<notin> set (map fst done)" using Cons.prems(1) a by auto
    then show ?thesis using Cons.prems(2) by (metis list.set_map)
  qed
  have "randomize rand_scales rng (a # items) pos (done' @ a # items) =
        randomize rand_scales rng items (Suc pos) ((done' @ [(p, ?x)]) @ items)"
    using a sc notin by (simp add: dict_set_mid)
  also have "\<dots> = Inr (Suc pos + length items,
          (done' @ [(p, ?x)]) @ map (\<lambda>(q, p, v). (p, np_uniform (1 / the (rand_scales p))
                                         (the (rand_scales p)) (rng q) * v))
                    (enumerate (Suc pos) items))"
    by (rule Cons.IH[of "done @ [a]"]) (use Cons.prems a in auto)
  finally show ?case using a sc by simp
qed

lemma build_population_gen:
  assumes "distinct (map fst (hyperparameters cfg))"
      and "\<forall>p\<in>fst ` set (hyperparameters cfg). \<exists>sc. rand_scales p = Some sc \<and> sc \<noteq> 0"
  shows "build_population c rand_scales rng cfg n pos pop =
     Inr (pos + n * length (hyperparameters cfg),
          pop @ map (\<lambda>i. Worker_init c (cfg\<lparr>hyperparameters :=
                 map (\<lambda>(q, p, v). (p, np_uniform (1 / the (rand_scales p)) (the (rand_scales p))
                                        (rng q) * v))
                   (enumerate (pos + i * length (hyperparameters cfg)) (hyperparameters cfg))\<rparr>))
                [0..<n])"
proof (induction n arbitrary: pos pop)
  case 0
  then show ?case by simp
next
  case (Suc n)
  let ?hp = "hyperparameters cfg"
  let ?m = "length ?hp"
  let ?e = "\<lambda>(q, p, v). (p, np_uniform (1 / the (rand_scales p)) (the (rand_scales p)) (rng q) * v)"
  have r: "randomize rand_scales rng ?hp pos ?hp = Inr (pos + ?m, map ?e (enumerate pos ?hp))"
    using randomize_gen[of "[]" ?hp "[]" rand_scales rng pos] assms by simp
  have "build_population c rand_scales rng cfg (Suc n) pos pop =
        build_population c rand_scales rng cfg n (pos + ?m)
          (pop @ [Worker_init c (cfg\<lparr>hyperparameters := map ?e (enumerate pos ?hp)\<rparr>)])"
    using r by simp
  also have "\<dots> = Inr (pos + ?m + n * ?m,
          (pop @ [Worker_init c (cfg\<lparr>hyperparameters := map ?e (enumerate pos ?hp)\<rparr>)]) @
            map (\<lambda>i. Worker_init c (cfg\<lparr>hyperparameters :=
                   map ?e (enumerate (pos + ?m + i * ?m) ?hp)\<rparr>)) [0..<n])"
    by (rule Suc.IH)
  finally show ?case
    by (simp add: map_upt_Suc add.assoc del: upt_Suc)
qed

lemma np_uniform_bounds:
  assumes "0 \<le> u" and "u \<le> 1" and "lo \<le> hi"
  shows "lo \<le> np_uniform lo hi u \<and> np_uniform lo hi u \<le> hi"
proof -
  have "0 \<le> (hi - lo) * u" using assms by simp
  moreover have "(hi - lo) * u \<le> hi - lo"
    using assms by (simp add: mult_left_le)
  ultimately show ?thesis by (simp add: np_uniform_def)
qed

lemma scale_interval:
  assumes "1 \<le> sc" and "0 \<le> v"
  shows "v / sc \<le> v * (sc :: real)"
proof -
  have up: "v \<le> v * sc" using mult_left_mono[OF assms(1) assms(2)] by simp
  have "0 < sc" using assms(1) by simp
  then have "v / sc \<le> v" using up by (simp add: divide_le_eq)
  with up show ?thesis by simp
qed

subsection \<open>Sequences of calls\<close>

lemma call_configs:
  "call c rng op pos s = Inr (pos', s') \<Longrightarrow>
   map w_config (population s') = map w_config (population s)"
proof (cases op)
  case Call_run_generation
  assume "call c rng op pos s = Inr (pos', s')"
  with Call_run_generation show ?thesis by (auto simp: run_generation_configs)
next
  case Call_ranker
  assume "call c rng op pos s = Inr (pos', s')"
  with Call_ranker show ?thesis by (auto split: sum.splits)
next
  case Call_exploit_explore
  assume "call c rng op pos s = Inr (pos', s')"
  with Call_exploit_explore exploit_explore_frame[of c rng pos s pos' s'] show ?thesis by simp
next
  case Call_run
  assume "call c rng op pos s = Inr (pos', s')"
  with Call_run run_loop_frame[of c rng "generations s" pos s pos' s'] show ?thesis
    by (simp add: run_def)
qed

lemma calls_configs:
  "calls c rng ops pos s = Inr (pos', s') \<Longrightarrow>
   map w_config (population s') = map w_config (population s)"
proof (induction ops arbitrary: pos s)
  case Nil
  then show ?case by simp
next
  case (Cons op ops)
  from Cons.prems obtain p1 s1 where
    a: "call c rng op pos s = Inr (p1, s1)" and b: "calls c rng ops p1 s1 = Inr (pos', s')"
    by (auto split: sum.splits)
  from Cons.IH[OF b] call_configs[OF a] show ?case by simp
qed

subsection \<open>The examples, evaluated\<close>

lemma scenario5_fields:
  "pop_size (scenario5 r) = 5" "rank (scenario5 r) = r" "explore (scenario5 r) = (1.2, 0.8)"
  "scores (scenario5 r) = [[1, 5, 3, 2, 4]]" "generation (scenario5 r) = 1"
  "population (scenario5 r) =
     [toy_worker 10 1, toy_worker 11 2, toy_worker 12 3, toy_worker 13 4, toy_worker 14 5]"
  by (simp_all add: scenario5_def)

lemma toy_worker_fields:
  "w_model (toy_worker wt lr) = (wt, [(''lr'', lr), (''dropout'', 1 / 2)])"
  "hyperparameters (w_config (toy_worker wt lr)) = [(''lr'', lr), (''dropout'', 1 / 2)]"
  by (simp_all add: toy_worker_def toy_config_def)

lemma num_pairs_5: "num_pairs 5 = 1"
  by (simp add: num_pairs_def)

lemma scenario5_ranker_high: "ranker (scenario5 ''high'') = Inr [1, 4, 2, 3, 0]"
  by (simp add: ranker_def scenario5_fields Let_def upt_rec)

lemma scenario5_exploit_explore:
  "exploit_explore toy_collab (\<lambda>_. 0) 0 (scenario5 ''high'') =
     Inr (1, (scenario5 ''high'')\<lparr>population :=
       [(toy_worker 10 1)\<lparr>w_model := (11, [(''lr'', 2.4), (''dropout'', 0.6)])\<rparr>,
        toy_worker 11 2, toy_worker 12 3, toy_worker 13 4, toy_worker 14 5]\<rparr>)"
  by (simp add: exploit_explore_def scenario5_ranker_high num_pairs_5 exploit_pair_def Let_def
      scenario5_fields toy_worker_fields toy_collab_def)

lemma scenario_ties_ranker: "ranker scenario_ties = Inr [1, 3, 0, 2, 4]"
  by (simp add: ranker_def scenario_ties_def scenario5_fields Let_def upt_rec)

lemma toy_init:
  "PBTTrainer_init toy_collab (\<lambda>_. 0) 0 2 2 toy_scales (toy_config 2) (1.2, 0.8) ''high'' =
     Inr (4, toy_start)"
  by (simp add: PBTTrainer_init_def numeral_2_eq_2 toy_scales_def toy_config_def toy_start_def
      np_uniform_def Worker_init_def toy_collab_def)

lemma toy_start_fields:
  "pop_size toy_start = 2" "generations toy_start = 2" "generation toy_start = 0"
  "rank toy_start = ''high''" "explore toy_start = (1.2, 0.8)"
  "losses toy_start = []" "scores toy_start = []"
  "population toy_start =
        [\<lparr>w_model = (0, [(''lr'', 1), (''dropout'', 1 / 2)]),
          w_config = (toy_config 2)\<lparr>hyperparameters := [(''lr'', 1), (''dropout'', 1 / 2)]\<rparr>,
          w_losses = None, w_score = None\<rparr>,
         \<lparr>w_model = (0, [(''lr'', 1), (''dropout'', 1 / 2)]),
          w_config = (toy_config 2)\<lparr>hyperparameters := [(''lr'', 1), (''dropout'', 1 / 2)]\<rparr>,
          w_losses = None, w_score = None\<rparr>]"
  by (simp_all add: toy_start_def)

lemma num_pairs_2: "num_pairs (Suc (Suc 0)) = Suc 0"
  by (simp add: num_pairs_div)

lemma toy_run:
  "run toy_collab (\<lambda>_. 0) 4 toy_start =
     Inr (6, toy_start\<lparr>generation := 2,
            losses := [[[0], [0]], [[1], [1]]], scores := [[2, 2], [4, 4]],
            population :=
        [\<lparr>w_model = (2, [(''lr'', 1), (''dropout'', 1 / 2)]),
          w_config = (toy_config 2)\<lparr>hyperparameters := [(''lr'', 1), (''dropout'', 1 / 2)]\<rparr>,
          w_losses = Some [1], w_score = Some 4\<rparr>,
         \<lparr>w_model = (2, [(''lr'', 6/5), (''dropout'', 3 / 5)]),
          w_config = (toy_config 2)\<lparr>hyperparameters := [(''lr'', 1), (''dropout'', 1 / 2)]\<rparr>,
          w_losses = Some [1], w_score = Some 4\<rparr>]\<rparr>)"
  by (simp add: run_def numeral_2_eq_2 run_generation_eq toy_start_fields Worker_run_set
      toy_collab_def toy_config_def exploit_explore_def ranker_def Let_def upt_rec num_pairs_2
      exploit_pair_def)

lemma toy_first_exploit:
  "exploit_explore toy_collab (\<lambda>_. 0) 4 (run_generation toy_collab toy_start) =
     Inr (5, toy_start\<lparr>generation := 1, losses := [[[0], [0]]], scores := [[2, 2]],
            population :=
        [\<lparr>w_model = (1, [(''lr'', 1), (''dropout'', 1 / 2)]),
          w_config = (toy_config 2)\<lparr>hyperparameters := [(''lr'', 1), (''dropout'', 1 / 2)]\<rparr>,
          w_losses = Some [0], w_score = Some 2\<rparr>,
         \<lparr>w_model = (1, [(''lr'', 6 / 5), (''dropout'', 3 / 5)]),
          w_config = (toy_config 2)\<lparr>hyperparameters := [(''lr'', 1), (''dropout'', 1 / 2)]\<rparr>,
          w_losses = Some [0], w_score = Some 2\<rparr>]\<rparr>)"
  by (simp add: run_generation_eq toy_start_fields Worker_run_set
      toy_collab_def toy_config_def exploit_explore_def ranker_def Let_def upt_rec num_pairs_div
      exploit_pair_def)

lemma toy_calls:
  "calls toy_collab (\<lambda>_. 0) [Call_run, Call_ranker, Call_run_generation, Call_exploit_explore]
      4 toy_start = Inr (7, toy_start\<lparr>generation := 3,
            losses := [[[0], [0]], [[1], [1]], [[2], [2]]], scores := [[2, 2], [4, 4], [6, 6]],
            population :=
        [\<lparr>w_model = (3, [(''lr'', 1), (''dropout'', 1 / 2)]),
          w_config = (toy_config 2)\<lparr>hyperparameters := [(''lr'', 1), (''dropout'', 1 / 2)]\<rparr>,
          w_losses = Some [2], w_score = Some 6\<rparr>,
         \<lparr>w_model = (3, [(''lr'', 6/5), (''dropout'', 3 / 5)]),
          w_config = (toy_config 2)\<lparr>hyperparameters := [(''lr'', 1), (''dropout'', 1 / 2)]\<rparr>,
          w_losses = Some [2], w_score = Some 6\<rparr>]\<rparr>)"
  apply (simp only: calls.simps call.simps toy_run sum.case prod.case)
  apply (simp add: run_generation_eq toy_start_fields Worker_run_set
      toy_collab_def toy_config_def exploit_explore_def ranker_def Let_def upt_rec num_pairs_div
      exploit_pair_def)
  done

section \<open>The claims\<close>

subsection \<open>C1: the stored configuration of the worst member\<close>

text \<open>C1 says that after \<open>exploit_explore\<close> the stored configuration of the worst member
  holds the perturbed copy of the hyperparameters of the best member. The code passes the
  perturbed copy to \<open>set_hyperparameters\<close> only: \<open>exploit_explore\<close> never assigns to a
  \<open>config\<close>. In the scenario with every draw 0, member 0 (the worst) ends with the
  hyperparameters \<open>lr = 2.4, dropout = 0.6\<close> in its model and with its configuration
  at its contents before the call, \<open>lr = 1, dropout = 0.5\<close>.\<close>

theorem C1_worst_config_not_updated:
  "(case exploit_explore toy_collab (\<lambda>_. 0) 0 (scenario5 ''high'') of
      Inl e \<Rightarrow> False
    | Inr (pos', s') \<Rightarrow>
        snd (w_model (population s' ! 0)) = [(''lr'', 2.4), (''dropout'', 0.6)] \<and>
        hyperparameters (w_config (population s' ! 0)) = [(''lr'', 1), (''dropout'', 0.5)] \<and>
        hyperparameters (w_config (population s' ! 0)) =
          hyperparameters (w_config (population (scenario5 ''high'') ! 0)))"
  by (simp add: scenario5_exploit_explore scenario5_fields toy_worker_fields)

subsection \<open>C2: a hyperparameter without a scale\<close>

text \<open>C2, as stated, fails: the constructor has no check of its own, and a hyperparameter
  without a scale ends it with the raw \<open>KeyError\<close> of the lookup
  \<open>rand_scales[param]\<close>. Here \<open>dropout\<close> has no scale.\<close>

theorem C2_missing_scale_counterexample:
  "PBTTrainer_init toy_collab (\<lambda>_. 0) 0 2 2 [''lr'' \<mapsto> 2] (toy_config 2) (1.2, 0.8) ''high'' =
     Inl (KeyError ''dropout'')"
  by (simp add: PBTTrainer_init_def numeral_2_eq_2 toy_config_def)

text \<open>C2, amended: let \<open>p\<close> be the first hyperparameter of the base configuration, in
  the order of the dict, that has no scale. For a population size of at least 1 the
  constructor fails while it builds the first member, without a default value: with the
  raw \<open>KeyError\<close> of \<open>p\<close>, or with \<open>ZeroDivisionError\<close> when a hyperparameter before \<open>p\<close>
  has the scale 0. For a population size of 0 the loop body never runs and the
  constructor returns.\<close>

theorem C2_missing_scale:
  assumes "hyperparameters cfg = pre @ (p, v) # post"
      and "rand_scales p = None"
      and "\<forall>q\<in>fst ` set pre. rand_scales q \<noteq> None"
  shows "(0 < n \<longrightarrow>
            PBTTrainer_init c rng pos n g rand_scales cfg expl rnk =
              Inl (if \<exists>q\<in>fst ` set pre. rand_scales q = Some 0 then ZeroDivisionError
                   else KeyError p)) \<and>
         (\<exists>s. PBTTrainer_init c rng pos 0 g rand_scales cfg expl rnk = Inr (pos, s))"
proof (intro conjI impI)
  assume "0 < n"
  then obtain n' where n: "n = Suc n'" by (cases n) auto
  have "randomize rand_scales rng (hyperparameters cfg) pos (hyperparameters cfg) =
     Inl (if \<exists>q\<in>fst ` set pre. rand_scales q = Some 0 then ZeroDivisionError else KeyError p)"
    using randomize_missing[OF assms(3) assms(2), of rng v post pos "hyperparameters cfg"]
    by (simp add: assms(1))
  then show "PBTTrainer_init c rng pos n g rand_scales cfg expl rnk =
              Inl (if \<exists>q\<in>fst ` set pre. rand_scales q = Some 0 then ZeroDivisionError
                   else KeyError p)"
    by (simp add: PBTTrainer_init_def n)
next
  show "\<exists>s. PBTTrainer_init c rng pos 0 g rand_scales cfg expl rnk = Inr (pos, s)"
    by (simp add: init_empty_population)
qed

text \<open>The amended C2 on \<open>toy_config 2\<close>: a missing scale for the first hyperparameter,
  and a missing scale after a scale 0.\<close>

theorem C2_missing_scale_witness:
  "PBTTrainer_init toy_collab (\<lambda>_. 0) 0 1 2 [''dropout'' \<mapsto> 1] (toy_config 2) (1.2, 0.8) ''high'' =
     Inl (KeyError ''lr'') \<and>
   PBTTrainer_init toy_collab (\<lambda>_. 0) 0 1 2 [''lr'' \<mapsto> 0] (toy_config 2) (1.2, 0.8) ''high'' =
     Inl ZeroDivisionError"
proof -
  have h: "hyperparameters (toy_config 2) = [] @ (''lr'', 2) # [(''dropout'', 1 / 2)]"
    "hyperparameters (toy_config 2) = [(''lr'', 2)] @ (''dropout'', 1 / 2) # []"
    by (simp_all add: toy_config_def)
  have a: "[''dropout'' \<mapsto> 1::real] ''lr'' = None"
    "\<forall>q\<in>fst ` set ([] :: (string \<times> real) list). [''dropout'' \<mapsto> 1::real] q \<noteq> None"
    by simp_all
  have b: "[''lr'' \<mapsto> 0::real] ''dropout'' = None"
    "\<forall>q\<in>fst ` set [(''lr'', 2::real)]. [''lr'' \<mapsto> 0::real] q \<noteq> None"
    by simp_all
  have c1: "\<not> (\<exists>q\<in>fst ` set ([] :: (string \<times> real) list). [''dropout'' \<mapsto> 1::real] q = Some 0)"
    by simp
  have c2: "\<exists>q\<in>fst ` set [(''lr'', 2::real)]. [''lr'' \<mapsto> 0::real] q = Some 0"
    by simp
  have pos: "0 < (1::nat)" by simp
  note k1 = C2_missing_scale[OF h(1) a, of 1 toy_collab "\<lambda>_. 0" 0 2 "(1.2, 0.8)" "''high''",
      THEN conjunct1, THEN mp, OF pos, unfolded if_not_P[OF c1]]
  note k2 = C2_missing_scale[OF h(2) b, of 1 toy_collab "\<lambda>_. 0" 0 2 "(1.2, 0.8)" "''high''",
      THEN conjunct1, THEN mp, OF pos, unfolded if_P[OF c2]]
  from k1 k2 show ?thesis by (rule conjI)
qed

subsection \<open>C3: the generation counter\<close>

text \<open>C3, as stated, fails: \<open>run_generation\<close> itself increments \<open>generation\<close>
  (its last statement is \<open>self.generation += 1\<close>). On the scheduler \<open>toy_start\<close> the
  counter after \<open>run_generation\<close> differs from the counter before.\<close>

theorem C3_run_generation_counterexample:
  "generation (run_generation toy_collab toy_start) \<noteq> generation toy_start"
  by (simp add: run_generation_eq)

text \<open>C3, amended: \<open>run_generation\<close> increments \<open>generation\<close> by exactly 1;
  \<open>exploit_explore\<close>, which follows it in the loop of \<open>run\<close>, leaves the counter
  unchanged, so that the counter has advanced by exactly 1 after each completed generation
  and by \<open>generations\<close> after a completed \<open>run\<close>.\<close>

theorem C3_generation_counter:
  "generation (run_generation c s) = generation s + 1 \<and>
   (\<forall>pos' s'. exploit_explore c rng pos (run_generation c s) = Inr (pos', s')
      \<longrightarrow> generation s' = generation s + 1) \<and>
   (\<forall>pos' s'. run c rng pos s = Inr (pos', s')
      \<longrightarrow> generation s' = generation s + generations s)"
proof (intro conjI allI impI)
  show g: "generation (run_generation c s) = generation s + 1"
    by (simp add: run_generation_eq)
  fix pos' s'
  {
    assume "exploit_explore c rng pos (run_generation c s) = Inr (pos', s')"
    from exploit_explore_frame[OF this] g show "generation s' = generation s + 1" by simp
  }
  {
    assume "run c rng pos s = Inr (pos', s')"
    then have "run_loop c rng (generations s) pos s = Inr (pos', s')" by (simp add: run_def)
    from run_loop_frame[OF this] show "generation s' = generation s + generations s" by simp
  }
qed

text \<open>The amended C3 on \<open>toy_start\<close>, where \<open>exploit_explore\<close> and \<open>run\<close> return.\<close>

theorem C3_generation_counter_witness:
  "generation (run_generation toy_collab toy_start) = 1 \<and>
   (case exploit_explore toy_collab (\<lambda>_. 0) 4 (run_generation toy_collab toy_start) of
      Inl e \<Rightarrow> False | Inr (pos', s') \<Rightarrow> generation s' = 1) \<and>
   (case run toy_collab (\<lambda>_. 0) 4 toy_start of
      Inl e \<Rightarrow> False | Inr (pos', s') \<Rightarrow> generation s' = 2)"
  using C3_generation_counter[of toy_collab toy_start "\<lambda>_. 0" 4] toy_first_exploit toy_run
  by (simp add: toy_start_fields)

subsection \<open>C4: the ranking\<close>

text \<open>C4: on a non-empty most recent score list of length \<open>pop_size\<close>, \<open>ranker\<close> returns
  a permutation of the indices \<open>0..<pop_size\<close>, ordered best first: by descending score
  when \<open>rank\<close> is \<open>'high'\<close> (the maximising direction of the code), so that the first
  index holds a maximal score, and by ascending score otherwise; members of equal score
  keep the order of their population indices.\<close>

theorem C4_ranker:
  fixes s :: "('m, 'k, 'l) pbt"
  assumes "scores s \<noteq> []" and "last (scores s) \<noteq> []"
      and "length (last (scores s)) = pop_size s"
  shows "\<exists>r. ranker s = Inr r \<and> mset r = mset [0..<pop_size s] \<and>
     (rank s = ''high'' \<longrightarrow>
        (\<forall>i j. i \<le> j \<and> j < length r \<longrightarrow> last (scores s) ! (r ! j) \<le> last (scores s) ! (r ! i)) \<and>
        (\<forall>k<pop_size s. last (scores s) ! k \<le> last (scores s) ! (hd r))) \<and>
     (rank s \<noteq> ''high'' \<longrightarrow>
        (\<forall>i j. i \<le> j \<and> j < length r \<longrightarrow> last (scores s) ! (r ! i) \<le> last (scores s) ! (r ! j)) \<and>
        (\<forall>k<pop_size s. last (scores s) ! (hd r) \<le> last (scores s) ! k)) \<and>
     (\<forall>i j. i < j \<and> j < length r \<and> last (scores s) ! (r ! i) = last (scores s) ! (r ! j)
        \<longrightarrow> r ! i < r ! j)"
proof -
  let ?sc = "last (scores s)"
  let ?n = "pop_size s"
  let ?f = "\<lambda>k. if rank s = ''high'' then - (?sc ! k) else ?sc ! k"
  let ?r = "sort_key ?f [0..<?n]"
  have r: "ranker s = Inr ?r"
    using ranker_eq[OF assms(1)] assms(3) by simp
  have len: "length ?r = ?n" by simp
  have perm: "mset ?r = mset [0..<?n]" by simp
  have sorted: "\<And>i j. i \<le> j \<Longrightarrow> j < ?n \<Longrightarrow> ?f (?r ! i) \<le> ?f (?r ! j)"
    by (rule sort_key_upt_sorted)
  have first: "\<And>k. k < ?n \<Longrightarrow> ?f (hd ?r) \<le> ?f k"
    by (rule sort_key_upt_hd)
  have stable: "\<And>i j. i < j \<Longrightarrow> j < ?n \<Longrightarrow> ?f (?r ! i) = ?f (?r ! j) \<Longrightarrow> ?r ! i < ?r ! j"
    by (rule sort_key_upt_stable)
  have high: "rank s = ''high'' \<longrightarrow>
        (\<forall>i j. i \<le> j \<and> j < length ?r \<longrightarrow> ?sc ! (?r ! j) \<le> ?sc ! (?r ! i)) \<and>
        (\<forall>k<?n. ?sc ! k \<le> ?sc ! (hd ?r))"
  proof (intro impI conjI allI)
    fix i j assume h: "rank s = ''high''" "i \<le> j \<and> j < length ?r"
    with sorted[of i j] show "?sc ! (?r ! j) \<le> ?sc ! (?r ! i)" by simp
  next
    fix k assume "rank s = ''high''" "k < ?n"
    with first[of k] show "?sc ! k \<le> ?sc ! (hd ?r)" by simp
  qed
  have low: "rank s \<noteq> ''high'' \<longrightarrow>
        (\<forall>i j. i \<le> j \<and> j < length ?r \<longrightarrow> ?sc ! (?r ! i) \<le> ?sc ! (?r ! j)) \<and>
        (\<forall>k<?n. ?sc ! (hd ?r) \<le> ?sc ! k)"
  proof (intro impI conjI allI)
    fix i j assume h: "rank s \<noteq> ''high''" "i \<le> j \<and> j < length ?r"
    with sorted[of i j] show "?sc ! (?r ! i) \<le> ?sc ! (?r ! j)" by simp
  next
    fix k assume "rank s \<noteq> ''high''" "k < ?n"
    with first[of k] show "?sc ! (hd ?r) \<le> ?sc ! k" by simp
  qed
  have st: "\<forall>i j. i < j \<and> j < length ?r \<and> ?sc ! (?r ! i) = ?sc ! (?r ! j) \<longrightarrow> ?r ! i < ?r ! j"
  proof (intro allI impI)
    fix i j assume h: "i < j \<and> j < length ?r \<and> ?sc ! (?r ! i) = ?sc ! (?r ! j)"
    then have "?f (?r ! i) = ?f (?r ! j)" by (cases "rank s = ''high''") auto
    with stable[of i j] h show "?r ! i < ?r ! j" by simp
  qed
  from r perm high low st show ?thesis by blast
qed

text \<open>C4 on the scenario with ties, where the ranking is \<open>[1, 3, 0, 2, 4]\<close>.\<close>

theorem C4_ranker_witness:
  "ranker scenario_ties = Inr [1, 3, 0, 2, 4] \<and>
   mset [1, 3, 0, 2, 4] = mset [0..<5::nat] \<and>
   last (scores scenario_ties) ! 1 = last (scores scenario_ties) ! 3 \<and>
   last (scores scenario_ties) ! 0 \<le> last (scores scenario_ties) ! hd [1, 3, 0, 2, 4::nat]"
proof -
  have a: "scores scenario_ties \<noteq> []" "last (scores scenario_ties) \<noteq> []"
    "length (last (scores scenario_ties)) = pop_size scenario_ties"
    by (simp_all add: scenario_ties_def scenario5_fields)
  from C4_ranker[OF a] obtain r where
    r: "ranker scenario_ties = Inr r" "mset r = mset [0..<pop_size scenario_ties]"
    "rank scenario_ties = ''high'' \<longrightarrow>
       (\<forall>k<pop_size scenario_ties. last (scores scenario_ties) ! k \<le> last (scores scenario_ties) ! (hd r))"
    by blast
  from r(1) have req: "r = [1, 3, 0, 2, 4]" by (simp add: scenario_ties_ranker)
  have ps: "pop_size scenario_ties = 5" "rank scenario_ties = ''high''"
    by (simp_all add: scenario_ties_def scenario5_fields)
  from r(3) ps have "last (scores scenario_ties) ! 0 \<le> last (scores scenario_ties) ! (hd r)"
    by simp
  with r(2) req ps show ?thesis
    by (simp add: scenario_ties_ranker) (simp add: scenario_ties_def)
qed

subsection \<open>C5: the scenario of five members\<close>

text \<open>C5, as stated, fails: with the scores \<open>[1, 5, 3, 2, 4]\<close> and the maximising
  direction the ranking is not \<open>[1, 2, 4, 3, 0]\<close>.\<close>

theorem C5_ranking_counterexample:
  "ranker (scenario5 ''high'') \<noteq> Inr [1, 2, 4, 3, 0]"
  by (simp add: scenario5_ranker_high)

text \<open>C5, amended: with \<open>pop_size = 5\<close>, \<open>rank = 'high'\<close> and the most recent scores
  \<open>[1, 5, 3, 2, 4]\<close>, \<open>ranker\<close> returns \<open>[1, 4, 2, 3, 0]\<close>, the number of pairs is
  \<open>ceil(0.2 * 5) = 1\<close>, and \<open>exploit_explore\<close> is the pair step from best index 1 onto
  worst index 0: the trainable of member 0 receives the state of member 1 and the perturbed
  copy of the hyperparameters of member 1.\<close>

theorem C5_scenario:
  fixes s :: "('m, 'k, 'l) pbt"
  assumes "pop_size s = 5" and "rank s = ''high''"
      and "scores s \<noteq> []" and "last (scores s) = [1, 5, 3, 2, 4]"
      and "length (population s) = 5"
      and "distinct (map fst (hyperparameters (w_config (population s ! 1))))"
  shows "ranker s = Inr [1, 4, 2, 3, 0] \<and>
         nat \<lceil>0.2 * real (pop_size s)\<rceil> = 1 \<and>
         exploit_explore c rng pos s =
           Inr (pos + 1,
                spec_pair_step c (if rng pos < 0.5 then fst (explore s) else snd (explore s)) 1 0 s)"
proof -
  have r: "ranker s = Inr [1, 4, 2, 3, 0]"
    using assms(2-4) by (simp add: ranker_def Let_def upt_rec)
  have n: "num_pairs (pop_size s) = 1"
    using assms(1) by (simp add: num_pairs_div)
  have p: "exploit_pair c (rng pos) 1 0 s =
           spec_pair_step c (if rng pos < 0.5 then fst (explore s) else snd (explore s)) 1 0 s"
    by (rule exploit_pair_spec) (use assms in simp_all)
  have "exploit_explore c rng pos s = Inr (pos + 1, exploit_pair c (rng pos) 1 0 s)"
    using assms(5) by (simp add: exploit_explore_def r n Let_def)
  with r n p show ?thesis by (simp add: num_pairs_def)
qed

text \<open>The amended C5 on \<open>scenario5\<close> with every draw 0, hence the factor 1.2.\<close>

theorem C5_scenario_witness:
  "ranker (scenario5 ''high'') = Inr [1, 4, 2, 3, 0] \<and>
   nat \<lceil>0.2 * real (pop_size (scenario5 ''high''))\<rceil> = 1 \<and>
   exploit_explore toy_collab (\<lambda>_. 0) 0 (scenario5 ''high'') =
     Inr (1, spec_pair_step toy_collab 1.2 1 0 (scenario5 ''high''))"
  using C5_scenario[of "scenario5 ''high''" toy_collab "\<lambda>_. 0" 0]
  by (simp add: scenario5_fields toy_worker_fields)

subsection \<open>C6: the pairs of one call and their factor\<close>

text \<open>C6: a call of \<open>exploit_explore\<close> whose ranking is \<open>ranks\<close>, on a scheduler whose
  most recent scores and whose population have length \<open>pop_size\<close>, processes the pairs
  \<open>idx = 0, ..., ceil(0.2 * pop_size) - 1\<close> and no other, takes one draw per pair, and
  multiplies every hyperparameter of the pair by the one factor that the draw selects:
  \<open>explore[0]\<close> when the draw is below 0.5, \<open>explore[1]\<close> otherwise.\<close>

theorem C6_exploit_explore_pairs:
  fixes s :: "('m, 'k, 'l) pbt"
  assumes "ranker s = Inr ranks"
      and "length (last (scores s)) = pop_size s" and "length (population s) = pop_size s"
      and "\<forall>w\<in>set (population s). distinct (map fst (hyperparameters (w_config w)))"
  shows "exploit_explore c rng pos s =
     Inr (pos + nat \<lceil>0.2 * real (pop_size s)\<rceil>,
          foldl (\<lambda>s' idx. spec_pair_step c
                   (if rng (pos + idx) < 0.5 then fst (explore s) else snd (explore s))
                   (ranks ! idx) (ranks ! (pop_size s - nat \<lceil>0.2 * real (pop_size s)\<rceil> + idx)) s')
            s [0..<nat \<lceil>0.2 * real (pop_size s)\<rceil>])"
  using exploit_explore_eq[OF assms, of c rng pos] by (simp add: num_pairs_def)

text \<open>C6 on \<open>scenario5\<close>: one pair, one draw, the factor 1.2.\<close>

theorem C6_exploit_explore_pairs_witness:
  "exploit_explore toy_collab (\<lambda>_. 0) 0 (scenario5 ''high'') =
     Inr (1, spec_pair_step toy_collab 1.2 1 0 (scenario5 ''high''))"
proof -
  have d: "\<forall>w\<in>set (population (scenario5 ''high'')).
             distinct (map fst (hyperparameters (w_config w)))"
    by (simp add: scenario5_fields toy_worker_fields)
  have n: "nat \<lceil>0.2 * real (pop_size (scenario5 ''high''))\<rceil> = 1"
    by (simp add: scenario5_fields)
  from C6_exploit_explore_pairs[OF scenario5_ranker_high _ _ d, of toy_collab "\<lambda>_. 0" 0]
  show ?thesis
    unfolding n by (simp add: scenario5_fields)
qed

subsection \<open>C7: the initial hyperparameters\<close>

text \<open>C7, as stated, fails: the value the constructor stores is not
  \<open>uniform(base/scale, base*scale) * base_value\<close>. For the base value 2, the scale 2
  and the draw 0 the constructor stores 1, the formula gives 2.\<close>

theorem C7_initial_value_counterexample:
  "PBTTrainer_init toy_collab (\<lambda>_. 0) 0 2 2 toy_scales (toy_config 2) (1.2, 0.8) ''high'' =
     Inr (4, toy_start) \<and>
   hyperparameters (w_config (population toy_start ! 0)) ! 0 = (''lr'', 1) \<and>
   spec_initial_value 2 2 0 = 2"
  unfolding toy_init by (simp add: toy_start_fields spec_initial_value_def np_uniform_def)

text \<open>C7, amended: when every hyperparameter of the base configuration has a scale other
  than 0, the constructor returns, and the initial value of parameter \<open>j\<close> of member \<open>i\<close> is
  \<open>uniform(1/scale, scale) * base_value\<close> for the draw number \<open>i * m + j\<close> of the call (\<open>m\<close>
  the number of hyperparameters); this is \<open>uniform(base_value/scale, base_value*scale)\<close>
  for the same draw, and it lies in the interval from \<open>base_value/scale\<close> to
  \<open>base_value*scale\<close> when the scale is at least 1 and the base value is not negative.\<close>

theorem C7_initial_values:
  fixes cfg :: "'k config"
  assumes "distinct (map fst (hyperparameters cfg))"
      and "\<forall>p\<in>fst ` set (hyperparameters cfg). \<exists>sc. rand_scales p = Some sc \<and> sc \<noteq> 0"
  shows "\<exists>s. PBTTrainer_init c rng pos n g rand_scales cfg expl rnk =
               Inr (pos + n * length (hyperparameters cfg), s) \<and>
             length (population s) = n \<and>
             (\<forall>i<n. \<forall>j<length (hyperparameters cfg). \<forall>p v sc.
                hyperparameters cfg ! j = (p, v) \<and> rand_scales p = Some sc \<longrightarrow>
                  hyperparameters (w_config (population s ! i)) ! j =
                    (p, np_uniform (1 / sc) sc (rng (pos + i * length (hyperparameters cfg) + j)) * v) \<and>
                  np_uniform (1 / sc) sc (rng (pos + i * length (hyperparameters cfg) + j)) * v =
                    np_uniform (v / sc) (v * sc) (rng (pos + i * length (hyperparameters cfg) + j)) \<and>
                  (0 \<le> rng (pos + i * length (hyperparameters cfg) + j) \<and>
                   rng (pos + i * length (hyperparameters cfg) + j) \<le> 1 \<and> 1 \<le> sc \<and> 0 \<le> v \<longrightarrow>
                     v / sc \<le> np_uniform (1 / sc) sc (rng (pos + i * length (hyperparameters cfg) + j)) * v \<and>
                     np_uniform (1 / sc) sc (rng (pos + i * length (hyperparameters cfg) + j)) * v \<le> v * sc))"
proof -
  let ?hp = "hyperparameters cfg"
  let ?m = "length ?hp"
  let ?e = "\<lambda>(q, p, v). (p, np_uniform (1 / the (rand_scales p)) (the (rand_scales p)) (rng q) * v)"
  let ?pop = "map (\<lambda>i. Worker_init c (cfg\<lparr>hyperparameters :=
                 map ?e (enumerate (pos + i * ?m) ?hp)\<rparr>)) [0..<n]"
  let ?s = "\<lparr>pop_size = n, generations = g, generation = 0, rank = rnk, explore = expl,
             config = cfg, losses = [], scores = [], population = ?pop\<rparr>"
  have i: "PBTTrainer_init c rng pos n g rand_scales cfg expl rnk = Inr (pos + n * ?m, ?s)"
    using build_population_gen[OF assms, of c rng n pos "[]"] by (simp add: PBTTrainer_init_def)
  have u: "np_uniform (1 / sc) sc x * v = np_uniform (v / sc) (v * sc) x" for sc v x :: real
    by (simp add: np_uniform_def algebra_simps)
  have v: "\<forall>i<n. \<forall>j<?m. \<forall>p v sc.
                ?hp ! j = (p, v) \<and> rand_scales p = Some sc \<longrightarrow>
                  hyperparameters (w_config (population ?s ! i)) ! j =
                    (p, np_uniform (1 / sc) sc (rng (pos + i * ?m + j)) * v) \<and>
                  np_uniform (1 / sc) sc (rng (pos + i * ?m + j)) * v =
                    np_uniform (v / sc) (v * sc) (rng (pos + i * ?m + j)) \<and>
                  (0 \<le> rng (pos + i * ?m + j) \<and> rng (pos + i * ?m + j) \<le> 1 \<and> 1 \<le> sc \<and> 0 \<le> v \<longrightarrow>
                     v / sc \<le> np_uniform (1 / sc) sc (rng (pos + i * ?m + j)) * v \<and>
                     np_uniform (1 / sc) sc (rng (pos + i * ?m + j)) * v \<le> v * sc)"
  proof (intro allI impI)
    fix i j p v sc
    assume "i < n" "j < ?m" "?hp ! j = (p, v) \<and> rand_scales p = Some sc"
    then have "hyperparameters (w_config (population ?s ! i)) ! j =
                    (p, np_uniform (1 / sc) sc (rng (pos + i * ?m + j)) * v)"
      by (simp add: Worker_init_def nth_enumerate_eq)
    moreover have "0 \<le> rng (pos + i * ?m + j) \<and> rng (pos + i * ?m + j) \<le> 1 \<and> 1 \<le> sc \<and> 0 \<le> v \<longrightarrow>
                     v / sc \<le> np_uniform (1 / sc) sc (rng (pos + i * ?m + j)) * v \<and>
                     np_uniform (1 / sc) sc (rng (pos + i * ?m + j)) * v \<le> v * sc"
      unfolding u using np_uniform_bounds[of "rng (pos + i * ?m + j)" "v / sc" "v * sc"]
        scale_interval[of sc v] by blast
    ultimately show "hyperparameters (w_config (population ?s ! i)) ! j =
                    (p, np_uniform (1 / sc) sc (rng (pos + i * ?m + j)) * v) \<and>
                  np_uniform (1 / sc) sc (rng (pos + i * ?m + j)) * v =
                    np_uniform (v / sc) (v * sc) (rng (pos + i * ?m + j)) \<and>
                  (0 \<le> rng (pos + i * ?m + j) \<and> rng (pos + i * ?m + j) \<le> 1 \<and> 1 \<le> sc \<and> 0 \<le> v \<longrightarrow>
                     v / sc \<le> np_uniform (1 / sc) sc (rng (pos + i * ?m + j)) * v \<and>
                     np_uniform (1 / sc) sc (rng (pos + i * ?m + j)) * v \<le> v * sc)"
      using u by blast
  qed
  have "length (population ?s) = n" by simp
  with i v show ?thesis by blast
qed

text \<open>The amended C7 on \<open>toy_config 2\<close> with the draws \<open>0, 1/8, 2/8, 3/8\<close>: the learning
  rate of member 1 uses the draw \<open>2/8\<close> and is \<open>(1/2 + (2 - 1/2) * 2/8) * 2 = 7/4\<close>.\<close>

theorem C7_initial_values_witness:
  "(case PBTTrainer_init toy_collab (\<lambda>q. real q / 8) 0 2 2 toy_scales (toy_config 2) (1.2, 0.8)
          ''high'' of
      Inl e \<Rightarrow> False
    | Inr (pos', s) \<Rightarrow>
        pos' = 4 \<and> hyperparameters (w_config (population s ! 1)) ! 0 = (''lr'', 7 / 4) \<and>
        (2::real) / 2 \<le> 7 / 4 \<and> (7::real) / 4 \<le> 2 * 2)"
proof -
  have d: "distinct (map fst (hyperparameters (toy_config 2)))"
    "\<forall>p\<in>fst ` set (hyperparameters (toy_config 2)). \<exists>sc. toy_scales p = Some sc \<and> sc \<noteq> 0"
    by (simp_all add: toy_config_def toy_scales_def)
  from C7_initial_values[OF d, of toy_collab "\<lambda>q. real q / 8" 0 2 2 "(1.2, 0.8)" "''high''"]
  obtain s where s:
    "PBTTrainer_init toy_collab (\<lambda>q. real q / 8) 0 2 2 toy_scales (toy_config 2) (1.2, 0.8) ''high'' =
       Inr (0 + 2 * length (hyperparameters (toy_config 2)), s)"
    "\<forall>i<2. \<forall>j<length (hyperparameters (toy_config 2)). \<forall>p v sc.
        hyperparameters (toy_config 2) ! j = (p, v) \<and> toy_scales p = Some sc \<longrightarrow>
          hyperparameters (w_config (population s ! i)) ! j =
            (p, np_uniform (1 / sc) sc (real (0 + i * length (hyperparameters (toy_config 2)) + j) / 8) * v) \<and>
          (0 \<le> real (0 + i * length (hyperparameters (toy_config 2)) + j) / 8 \<and>
           real (0 + i * length (hyperparameters (toy_config 2)) + j) / 8 \<le> 1 \<and> 1 \<le> sc \<and> 0 \<le> v \<longrightarrow>
             v / sc \<le> np_uniform (1 / sc) sc (real (0 + i * length (hyperparameters (toy_config 2)) + j) / 8) * v \<and>
             np_uniform (1 / sc) sc (real (0 + i * length (hyperparameters (toy_config 2)) + j) / 8) * v \<le> v * sc)"
    by blast
  have h: "hyperparameters (toy_config 2) ! 0 = (''lr'', 2) \<and> toy_scales ''lr'' = Some 2"
    by (simp add: toy_config_def toy_scales_def)
  have l: "0 < length (hyperparameters (toy_config 2))" by (simp add: toy_config_def)
  have one: "(1::nat) < 2" by simp
  note k = s(2)[rule_format, OF one l h]
  from k have "hyperparameters (w_config (population s ! 1)) ! 0 =
            (''lr'', np_uniform (1 / 2) 2 (real (0 + 1 * length (hyperparameters (toy_config 2)) + 0) / 8) * 2)"
    by (rule conjunct1)
  then have e: "hyperparameters (w_config (population s ! 1)) ! 0 = (''lr'', 7 / 4)"
    by (simp add: toy_config_def np_uniform_def)
  from k have "(2::real) / 2 \<le> 7 / 4 \<and> (7::real) / 4 \<le> 2 * 2"
    by (simp add: toy_config_def np_uniform_def)
  with e s(1) show ?thesis by (simp add: toy_config_def)
qed

subsection \<open>C8: the histories after \<open>run\<close>\<close>

text \<open>C8: on a scheduler as the constructor returns it for \<open>n\<close> members and \<open>g\<close>
  generations, whenever \<open>run\<close> returns, the score history and the loss history have
  exactly \<open>g\<close> entries, each of length \<open>n\<close>, and \<open>generation\<close> is \<open>g\<close>; the entry that
  a generation appends holds the score, or the losses, of member \<open>i\<close> at index \<open>i\<close>. And \<open>run\<close> does
  return when the population is not empty or \<open>g\<close> is 0; with an empty population and
  \<open>g > 0\<close> it raises the \<open>ValueError\<close> of \<open>np.max\<close> on the empty score list.\<close>

theorem C8_run_histories:
  fixes s0 :: "('m, 'k, 'l) pbt"
  assumes "PBTTrainer_init c rng pos n g rand_scales cfg expl rnk = Inr (pos0, s0)"
  shows "(0 < n \<or> g = 0 \<longrightarrow> (\<exists>pos' s'. run c rng pos0 s0 = Inr (pos', s'))) \<and>
         (n = 0 \<and> 0 < g \<longrightarrow> run c rng pos0 s0 = Inl ValueError) \<and>
         (\<forall>pos' s'. run c rng pos0 s0 = Inr (pos', s') \<longrightarrow>
            length (scores s') = g \<and> length (losses s') = g \<and> generation s' = g \<and>
            (\<forall>e\<in>set (scores s'). length e = n) \<and> (\<forall>e\<in>set (losses s'). length e = n)) \<and>
         scores (run_generation c s) =
           scores s @ [map (\<lambda>w. snd (snd (Worker_run c w))) (population s)] \<and>
         losses (run_generation c s) =
           losses s @ [map (\<lambda>w. fst (snd (Worker_run c w))) (population s)]"
proof (intro conjI impI allI)
  show "scores (run_generation c s) =
           scores s @ [map (\<lambda>w. snd (snd (Worker_run c w))) (population s)]"
    "losses (run_generation c s) =
           losses s @ [map (\<lambda>w. fst (snd (Worker_run c w))) (population s)]"
    by (simp_all add: run_generation_eq)
  note sh = PBTTrainer_init_shape[OF assms]
  {
    assume "0 < n \<or> g = 0"
    then show "\<exists>pos' s'. run c rng pos0 s0 = Inr (pos', s')"
    proof
      assume "0 < n"
      with sh run_loop_returns[of s0 c rng g pos0] show ?thesis by (simp add: run_def)
    next
      assume "g = 0"
      with sh show ?thesis by (simp add: run_def)
    qed
  }
  {
    assume "n = 0 \<and> 0 < g"
    then obtain g' where "g = Suc g'" "n = 0" by (cases g) auto
    with sh run_loop_empty_population[of s0 c rng g' pos0]
    show "run c rng pos0 s0 = Inl ValueError" by (simp add: run_def)
  }
  fix pos' s'
  assume "run c rng pos0 s0 = Inr (pos', s')"
  then have "run_loop c rng g pos0 s0 = Inr (pos', s')" using sh by (simp add: run_def)
  from run_loop_frame[OF this] sh
  show "length (scores s') = g" "length (losses s') = g" "generation s' = g"
    "\<forall>e\<in>set (scores s'). length e = n" "\<forall>e\<in>set (losses s'). length e = n"
    by auto
qed

text \<open>C8 on the scheduler \<open>toy_start\<close>, which the constructor returns (\<open>toy_init\<close>): two
  generations of two members.\<close>

theorem C8_run_histories_witness:
  "run toy_collab (\<lambda>_. 0) 4 toy_start \<noteq> Inl ValueError \<and>
   (case run toy_collab (\<lambda>_. 0) 4 toy_start of
      Inl e \<Rightarrow> False
    | Inr (pos', s') \<Rightarrow> length (scores s') = 2 \<and> length (losses s') = 2 \<and> generation s' = 2 \<and>
        scores s' = [[2, 2], [4, 4]])"
  using C8_run_histories[OF toy_init] toy_run
  by simp

subsection \<open>C9: the \<open>trainer\<close> and \<open>evaluator\<close> subtrees\<close>

text \<open>C9: after the constructor and after any sequence of calls of \<open>run_generation\<close>,
  \<open>ranker\<close>, \<open>exploit_explore\<close> and \<open>run\<close> that return, the \<open>trainer\<close> and the
  \<open>evaluator\<close> entry of the configuration of every member are those of the base
  configuration the population was created from. The two writes to a member that the
  code has, the worker's own \<open>run\<close> and the pair step, keep the configuration also when a
  later step of the same call raises (\<open>Worker_run_config\<close>, \<open>exploit_pair_configs\<close>).\<close>

theorem C9_trainer_evaluator_invariant:
  fixes s0 :: "('m, 'k, 'l) pbt"
  assumes "PBTTrainer_init c rng pos n g rand_scales cfg expl rnk = Inr (pos0, s0)"
      and "calls c rng ops pos0 s0 = Inr (pos', s')"
  shows "map (\<lambda>w. trainer (w_config w)) (population s') = replicate n (trainer cfg) \<and>
         map (\<lambda>w. evaluator (w_config w)) (population s') = replicate n (evaluator cfg) \<and>
         map (\<lambda>w. trainer (w_config w)) (population s0) = replicate n (trainer cfg) \<and>
         map (\<lambda>w. evaluator (w_config w)) (population s0) = replicate n (evaluator cfg)"
proof -
  note sh = PBTTrainer_init_shape[OF assms(1)]
  have t0: "map (\<lambda>w. trainer (w_config w)) (population s0) = replicate n (trainer cfg)"
    using sh by (intro replicate_eqI) auto
  have e0: "map (\<lambda>w. evaluator (w_config w)) (population s0) = replicate n (evaluator cfg)"
    using sh by (intro replicate_eqI) auto
  have "map w_config (population s') = map w_config (population s0)"
    by (rule calls_configs[OF assms(2)])
  then have "map (\<lambda>w. trainer (w_config w)) (population s') = map (\<lambda>w. trainer (w_config w)) (population s0)"
    "map (\<lambda>w. evaluator (w_config w)) (population s') = map (\<lambda>w. evaluator (w_config w)) (population s0)"
    by (simp_all only: map_map[symmetric, of trainer w_config, unfolded o_def]
        map_map[symmetric, of evaluator w_config, unfolded o_def])
  with t0 e0 show ?thesis by simp
qed

text \<open>C9 on \<open>toy_start\<close> and a sequence of four calls.\<close>

theorem C9_trainer_evaluator_invariant_witness:
  "(case calls toy_collab (\<lambda>_. 0) [Call_run, Call_ranker, Call_run_generation, Call_exploit_explore]
           4 toy_start of
      Inl e \<Rightarrow> False
    | Inr (pos', s') \<Rightarrow>
        map (\<lambda>w. trainer (w_config w)) (population s') = [1, 1] \<and>
        map (\<lambda>w. evaluator (w_config w)) (population s') = [2, 2])"
  using C9_trainer_evaluator_invariant[OF toy_init toy_calls]
  unfolding toy_calls by (simp add: toy_config_def numeral_2_eq_2)

subsection \<open>C10: the rank direction\<close>

text \<open>C10: a scheduler whose \<open>rank\<close> is any string other than \<open>'high'\<close> ranks by
  ascending score, only \<open>'high'\<close> ranks by descending score, and the constructor accepts
  every string: its result for \<open>rnk\<close> is its result for \<open>'high'\<close> with \<open>rnk\<close> stored.\<close>

theorem C10_only_high_maximizes:
  fixes s :: "('m, 'k, 'l) pbt"
  assumes "rnk \<noteq> ''high''" and "scores s \<noteq> []"
  shows "ranker (s\<lparr>rank := rnk\<rparr>) =
           Inr (sort_key (\<lambda>k. last (scores s) ! k) [0..<length (last (scores s))]) \<and>
         ranker (s\<lparr>rank := ''high''\<rparr>) =
           Inr (sort_key (\<lambda>k. - (last (scores s) ! k)) [0..<length (last (scores s))]) \<and>
         PBTTrainer_init c rng pos n g rand_scales cfg expl rnk =
           map_sum id (\<lambda>(p, s'). (p, s'\<lparr>rank := rnk\<rparr>))
             (PBTTrainer_init c rng pos n g rand_scales cfg expl ''high'')"
proof (intro conjI)
  show "ranker (s\<lparr>rank := rnk\<rparr>) =
           Inr (sort_key (\<lambda>k. last (scores s) ! k) [0..<length (last (scores s))])"
    using assms ranker_eq[of "s\<lparr>rank := rnk\<rparr>"] by simp
  show "ranker (s\<lparr>rank := ''high''\<rparr>) =
           Inr (sort_key (\<lambda>k. - (last (scores s) ! k)) [0..<length (last (scores s))])"
    using assms ranker_eq[of "s\<lparr>rank := ''high''\<rparr>"] by simp
  show "PBTTrainer_init c rng pos n g rand_scales cfg expl rnk =
           map_sum id (\<lambda>(p, s'). (p, s'\<lparr>rank := rnk\<rparr>))
             (PBTTrainer_init c rng pos n g rand_scales cfg expl ''high'')"
    by (rule init_rank)
qed

text \<open>C10 on \<open>scenario5\<close> and on the constructor, for the string \<open>'maximize'\<close>.\<close>

theorem C10_only_high_maximizes_witness:
  "ranker (scenario5 ''maximize'') = Inr [0, 3, 2, 4, 1] \<and>
   ranker (scenario5 ''high'') = Inr [1, 4, 2, 3, 0] \<and>
   PBTTrainer_init toy_collab (\<lambda>_. 0) 0 2 2 toy_scales (toy_config 2) (1.2, 0.8) ''maximize'' =
     Inr (4, toy_start\<lparr>rank := ''maximize''\<rparr>)"
proof -
  have a: "''maximize'' \<noteq> ''high''" "scores (scenario5 ''low'') \<noteq> []"
    by (simp_all add: scenario5_fields)
  have e: "(scenario5 ''low'')\<lparr>rank := r\<rparr> = scenario5 r" for r
    by (simp add: scenario5_def)
  from C10_only_high_maximizes[OF a, of toy_collab "\<lambda>_. 0" 0 2 2 toy_scales "toy_config 2" "(1.2, 0.8)"]
  show ?thesis
    unfolding e toy_init by (simp add: scenario5_fields upt_rec)
qed

end
